theory Spec2Isabelle
  imports Complex_Main "HOL-Library.FSet"
begin

section \<open>Numbers and vectors\<close>

text \<open>
  Every JavaScript number, every \<^verbatim>\<open>Float32Array\<close> entry and every GLSL float of the
  brush subsystem is modelled as a real number: rounding, NaN and the infinities are
  left out. Vectors of three.js (\<^verbatim>\<open>Vector2\<close>, \<^verbatim>\<open>Vector3\<close>) are tuples.
\<close>

type_synonym vec2 = "real \<times> real"
type_synonym vec3 = "real \<times> real \<times> real"
type_synonym vec4 = "real \<times> real \<times> real \<times> real"

text \<open>A contact point as \<^verbatim>\<open>BristleSystem.handleCollision\<close> pushes it.\<close>

record contact =
  c_position :: vec3
  c_uv :: vec2
  c_normal :: vec3
  c_pressure :: real
  c_bristleIndex :: nat

section \<open>BristlePaintApplicator: the fallback painter\<close>

text \<open>\<^verbatim>\<open>PAINT_CONFIG\<close> of BristlePaintApplicator.js.\<close>

definition strokeWidth :: real where "strokeWidth = 70"
definition baseOpacity :: real where "baseOpacity = 95 / 100"
definition edgeDarkeningAmount :: real where "edgeDarkeningAmount = 15"
definition glossIntensity :: real where "glossIntensity = 3 / 10"
definition glossWidth :: real where "glossWidth = 15 / 100"
definition minDistance :: real where "minDistance = 15"

text \<open>
  The applicator object. \<^verbatim>\<open>paintedCells\<close> is a JavaScript \<^verbatim>\<open>Set\<close> of the keys
  \<^verbatim>\<open>`${cellX}_${cellY}`\<close>; a key is modelled by the pair of integers it prints,
  and the set is finite, so that \<^verbatim>\<open>size\<close> is \<open>fcard\<close>.
\<close>

record applicator =
  dim :: real
  lastPaintedPos :: "vec2 option"
  paintedCells :: "(int \<times> int) fset"
  cellSize :: real

definition newApplicator :: "real \<Rightarrow> applicator" where
  "newApplicator canvasDim =
     \<lparr>dim = canvasDim, lastPaintedPos = None, paintedCells = {||},
      cellSize = canvasDim / 64\<rparr>"

text \<open>
  The 2D canvas context is modelled by the log of its \<^verbatim>\<open>stroke()\<close> calls: each entry
  holds the line width, the \<^verbatim>\<open>rgba(r, g, b, a)\<close> stroke style and the two end points of
  the path that was stroked. \<^verbatim>\<open>save()\<close>/\<^verbatim>\<open>restore()\<close> bracket the pen settings, which
  therefore do not outlive \<^verbatim>\<open>drawSegment\<close>.
\<close>

record stroke =
  lineWidth :: real
  strokeStyle :: vec4
  path_from :: vec2
  path_to :: vec2

type_synonym canvas = "stroke list"

definition resetStroke :: "applicator \<Rightarrow> applicator" where
  "resetStroke a = a\<lparr>lastPaintedPos := None\<rparr>"

text \<open>
  \<^verbatim>\<open>getPositionFromContacts\<close>: the pressure-weighted centroid in canvas pixels.
  \<^verbatim>\<open>contact.pressure || 0.5\<close> replaces a pressure of 0 by 0.5.
\<close>

definition contactWeight :: "contact \<Rightarrow> real" where
  "contactWeight c = (if c_pressure c = 0 then 1 / 2 else c_pressure c)"

definition accumulateContact :: "applicator \<Rightarrow> contact \<Rightarrow> real \<times> real \<times> real \<Rightarrow> real \<times> real \<times> real" where
  "accumulateContact a c acc =
     (case acc of (totalX, totalY, totalWeight) \<Rightarrow>
        let weight = contactWeight c in
        (totalX + fst (c_uv c) * dim a * weight,
         totalY + snd (c_uv c) * dim a * weight,
         totalWeight + weight))"

definition getPositionFromContacts :: "applicator \<Rightarrow> contact list \<Rightarrow> vec2" where
  "getPositionFromContacts a contacts =
     (case fold (accumulateContact a) contacts (0, 0, 0) of
        (totalX, totalY, totalWeight) \<Rightarrow>
          let totalWeight' = (if totalWeight = 0 then 1 else totalWeight) in
          (totalX / totalWeight', totalY / totalWeight'))"

text \<open>\<^verbatim>\<open>markPaintedArea\<close>: the two nested loops over \<^verbatim>\<open>dx\<close> and \<^verbatim>\<open>dy\<close>.\<close>

definition markCell :: "real \<Rightarrow> real \<Rightarrow> int \<Rightarrow> int \<Rightarrow> applicator \<Rightarrow> applicator" where
  "markCell cx cy dx dy a =
     (let x = cx + real_of_int dx * cellSize a;
          y = cy + real_of_int dy * cellSize a;
          cellX = \<lfloor>x / cellSize a\<rfloor>;
          cellY = \<lfloor>y / cellSize a\<rfloor>
      in if 0 \<le> cellX \<and> cellX < 64 \<and> 0 \<le> cellY \<and> cellY < 64
         then a\<lparr>paintedCells := finsert (cellX, cellY) (paintedCells a)\<rparr>
         else a)"

definition markPaintedArea :: "applicator \<Rightarrow> real \<Rightarrow> real \<Rightarrow> real \<Rightarrow> applicator" where
  "markPaintedArea a cx cy radius =
     (let radiusCells = \<lceil>radius / cellSize a\<rceil> + 1 in
      fold (\<lambda>dx. fold (markCell cx cy dx) [- radiusCells..radiusCells])
        [- radiusCells..radiusCells] a)"

text \<open>
  \<^verbatim>\<open>drawSegment\<close>: three layered strokes, then the coverage marks at both ends.
  \<^verbatim>\<open>parseColor\<close> only turns the CSS colour string into its red, green and blue
  numbers; it is the parameter \<open>pc\<close> here.
\<close>

definition drawSegment ::
  "(string \<Rightarrow> vec3) \<Rightarrow> applicator \<Rightarrow> canvas \<Rightarrow> vec2 \<Rightarrow> vec2 \<Rightarrow> string \<Rightarrow> real \<Rightarrow> applicator \<times> canvas" where
  "drawSegment pc a ctx from to color opacity =
     (case pc color of (r, g, b) \<Rightarrow>
      let width = strokeWidth;
          finalOpacity = baseOpacity * opacity;
          darkR = max 0 (r - edgeDarkeningAmount);
          darkG = max 0 (g - edgeDarkeningAmount);
          darkB = max 0 (b - edgeDarkeningAmount);
          ctx1 = ctx @ [\<lparr>lineWidth = width + 4,
                          strokeStyle = (darkR, darkG, darkB, finalOpacity * (1 / 2)),
                          path_from = from, path_to = to\<rparr>];
          ctx2 = ctx1 @ [\<lparr>lineWidth = width,
                           strokeStyle = (r, g, b, finalOpacity),
                           path_from = from, path_to = to\<rparr>];
          dx = fst to - fst from;
          dy = snd to - snd from;
          len = (if sqrt (dx * dx + dy * dy) = 0 then 1 else sqrt (dx * dx + dy * dy));
          perpX = - dy / len;
          perpY = dx / len;
          glossOffset = width * (25 / 100);
          ctx3 = ctx2 @ [\<lparr>lineWidth = width * glossWidth,
                           strokeStyle = (255, 255, 255, finalOpacity * glossIntensity),
                           path_from = (fst from + perpX * glossOffset, snd from + perpY * glossOffset),
                           path_to = (fst to + perpX * glossOffset, snd to + perpY * glossOffset)\<rparr>];
          a1 = markPaintedArea a (fst from) (snd from) (width / 2);
          a2 = markPaintedArea a1 (fst to) (snd to) (width / 2)
      in (a2, ctx3))"

text \<open>
  \<^verbatim>\<open>paint(ctx, contacts, color, opacity)\<close>. A null context or contact list is \<open>None\<close>.
  The result is the number returned (1 painted, 0 skipped), the applicator and the
  canvas afterwards.
\<close>

definition paint ::
  "(string \<Rightarrow> vec3) \<Rightarrow> applicator \<Rightarrow> canvas option \<Rightarrow> contact list option \<Rightarrow> string \<Rightarrow> real
     \<Rightarrow> nat \<times> applicator \<times> canvas option" where
  "paint pc a ctx contacts color opacity =
     (case ctx of
        None \<Rightarrow> (0, a, ctx)
      | Some c \<Rightarrow>
         (case contacts of
            None \<Rightarrow> (0, a, ctx)
          | Some cs \<Rightarrow>
              if length cs = 0 then (0, a, ctx)
              else
                let pos = getPositionFromContacts a cs in
                (case lastPaintedPos a of
                   None \<Rightarrow> (0, a\<lparr>lastPaintedPos := Some pos\<rparr>, ctx)
                 | Some lp \<Rightarrow>
                     let dx = fst pos - fst lp;
                         dy = snd pos - snd lp;
                         dist = sqrt (dx * dx + dy * dy)
                     in if dist < minDistance then (0, a, ctx)
                        else (case drawSegment pc a c lp pos color opacity of
                                (a', c') \<Rightarrow> (1, a'\<lparr>lastPaintedPos := Some pos\<rparr>, Some c')))))"

definition getCoverage :: "applicator \<Rightarrow> real" where
  "getCoverage a = real (fcard (paintedCells a)) / (64 * 64)"

section \<open>FluidSimulator: the grid solver\<close>

text \<open>
  A render target of \<open>N \<times> N\<close> RGBA float texels is a function from the texel index to
  its four components; only the indices below \<open>N\<close> exist on the GPU, and no sampler reads
  the others. A double-buffered target is a read/write pair with \<^verbatim>\<open>swap()\<close>.
\<close>

type_synonym texture = "nat \<times> nat \<Rightarrow> vec4"

record doubleFBO =
  fbo_read :: texture
  fbo_write :: texture

definition swap :: "doubleFBO \<Rightarrow> doubleFBO" where
  "swap d = \<lparr>fbo_read = fbo_write d, fbo_write = fbo_read d\<rparr>"

record fluid_config =
  velocityDissipation :: real
  paintDissipation :: real
  pressureIterations :: nat
  splatRadius :: real
  splatStrength :: real

text \<open>\<^verbatim>\<open>this.config\<close> as the constructor of FluidSimulator sets it.\<close>

definition defaultConfig :: fluid_config where
  "defaultConfig =
     \<lparr>velocityDissipation = 85 / 100, paintDissipation = 1, pressureIterations = 10,
      splatRadius = 6 / 1000, splatStrength = 1\<rparr>"

text \<open>
  The simulator. \<open>fs_clearColor\<close> is the clear colour and alpha of the WebGL renderer the
  simulator was given: \<^verbatim>\<open>renderer.clear()\<close> and \<^verbatim>\<open>renderer.clearColor()\<close> fill the bound
  target with it.
\<close>

record fluidSim =
  fs_size :: nat
  fs_config :: fluid_config
  fs_velocity :: doubleFBO
  fs_paint :: doubleFBO
  fs_pressure :: doubleFBO
  fs_divergence :: texture
  fs_lastUV :: "vec2 option"
  fs_clearColor :: vec4

subsection \<open>GLSL built-ins\<close>

definition mix :: "real \<Rightarrow> real \<Rightarrow> real \<Rightarrow> real" where
  "mix x y a = x * (1 - a) + y * a"

definition mix4 :: "vec4 \<Rightarrow> vec4 \<Rightarrow> real \<Rightarrow> vec4" where
  "mix4 p q a =
     (case p of (p1, p2, p3, p4) \<Rightarrow> case q of (q1, q2, q3, q4) \<Rightarrow>
        (mix p1 q1 a, mix p2 q2 a, mix p3 q3 a, mix p4 q4 a))"

definition scale4 :: "real \<Rightarrow> vec4 \<Rightarrow> vec4" where
  "scale4 k p = (case p of (p1, p2, p3, p4) \<Rightarrow> (k * p1, k * p2, k * p3, k * p4))"

definition distance :: "vec2 \<Rightarrow> vec2 \<Rightarrow> real" where
  "distance p q = sqrt ((fst p - fst q) * (fst p - fst q) + (snd p - snd q) * (snd p - snd q))"

definition comp_x :: "vec4 \<Rightarrow> real" where "comp_x p = fst p"
definition comp_y :: "vec4 \<Rightarrow> real" where "comp_y p = fst (snd p)"
definition comp_z :: "vec4 \<Rightarrow> real" where "comp_z p = fst (snd (snd p))"
definition comp_w :: "vec4 \<Rightarrow> real" where "comp_w p = snd (snd (snd p))"

text \<open>
  \<^verbatim>\<open>texture2D\<close> on a target created by \<^verbatim>\<open>createFBO\<close>: linear filtering, both wraps
  clamped to the edge. This is the sampling rule of WebGL, which the repository only
  calls: the four texels around the sample point, blended by the fractional offsets.
\<close>

definition clampIndex :: "nat \<Rightarrow> int \<Rightarrow> nat" where
  "clampIndex N k = nat (max 0 (min (int N - 1) k))"

definition texture2D :: "nat \<Rightarrow> texture \<Rightarrow> vec2 \<Rightarrow> vec4" where
  "texture2D N t uv =
     (let x = fst uv * real N - 1 / 2;
          y = snd uv * real N - 1 / 2;
          i0 = \<lfloor>x\<rfloor>;
          j0 = \<lfloor>y\<rfloor>;
          a = x - real_of_int i0;
          b = y - real_of_int j0
      in mix4
           (mix4 (t (clampIndex N i0, clampIndex N j0)) (t (clampIndex N (i0 + 1), clampIndex N j0)) a)
           (mix4 (t (clampIndex N i0, clampIndex N (j0 + 1)))
                 (t (clampIndex N (i0 + 1), clampIndex N (j0 + 1))) a)
           b)"

text \<open>
  The vertex shader passes \<^verbatim>\<open>uv\<close> through, so the fragment of texel \<open>(i, j)\<close> sees the
  coordinates of the texel centre. \<^verbatim>\<open>renderPass(material, target)\<close> runs the fragment
  shader once for every texel and overwrites the target with the outputs: the model
  assigns \<open>renderPass N frag\<close> to the target.
\<close>

definition vUv :: "nat \<Rightarrow> nat \<times> nat \<Rightarrow> vec2" where
  "vUv N ij = ((real (fst ij) + 1 / 2) / real N, (real (snd ij) + 1 / 2) / real N)"

definition renderPass :: "nat \<Rightarrow> (vec2 \<Rightarrow> vec4) \<Rightarrow> texture" where
  "renderPass N frag = (\<lambda>ij. frag (vUv N ij))"

definition clearTarget :: "vec4 \<Rightarrow> texture" where
  "clearTarget c = (\<lambda>ij. c)"

definition texelSize :: "nat \<Rightarrow> vec2" where
  "texelSize N = (1 / real N, 1 / real N)"

subsection \<open>The fragment shaders\<close>

record advect_uniforms =
  uVelocity :: texture
  uSource :: texture
  uDt :: real
  uDissipation :: real

definition advectShader :: "nat \<Rightarrow> advect_uniforms \<Rightarrow> vec2 \<Rightarrow> vec4" where
  "advectShader N un uv =
     (let vel = texture2D N (uVelocity un) uv;
          pos = (fst uv - comp_x vel * uDt un * (1 / 2), snd uv - comp_y vel * uDt un * (1 / 2))
      in scale4 (uDissipation un) (texture2D N (uSource un) pos))"

definition velocitySplatShader ::
  "nat \<Rightarrow> texture \<Rightarrow> vec2 \<Rightarrow> vec2 \<Rightarrow> real \<Rightarrow> real \<Rightarrow> vec2 \<Rightarrow> vec4" where
  "velocitySplatShader N src point vel radius strength uv =
     (let base = texture2D N src uv;
          d = distance uv point;
          splat = strength * exp (- d * d / radius)
      in (comp_x base + splat * fst vel, comp_y base + splat * snd vel, comp_z base, comp_w base))"

text \<open>The fragment shader of the temporary material that \<^verbatim>\<open>splat\<close> builds for the paint.\<close>

definition paintSplatShader ::
  "nat \<Rightarrow> texture \<Rightarrow> vec2 \<Rightarrow> vec3 \<Rightarrow> real \<Rightarrow> real \<Rightarrow> vec2 \<Rightarrow> vec4" where
  "paintSplatShader N src point color radius strength uv =
     (case color of (cr, cg, cb) \<Rightarrow>
      let base = texture2D N src uv;
          d = distance uv point;
          splat = strength * exp (- d * d / radius);
          newAlpha = max (comp_w base) (min 1 splat)
      in (mix (comp_x base) cr (min 1 splat), mix (comp_y base) cg (min 1 splat),
          mix (comp_z base) cb (min 1 splat), newAlpha))"

definition divergenceShader :: "nat \<Rightarrow> texture \<Rightarrow> vec2 \<Rightarrow> vec4" where
  "divergenceShader N vel uv =
     (let tx = fst (texelSize N); ty = snd (texelSize N);
          L = comp_x (texture2D N vel (fst uv - tx, snd uv - 0));
          R = comp_x (texture2D N vel (fst uv + tx, snd uv + 0));
          T = comp_y (texture2D N vel (fst uv + 0, snd uv + ty));
          B = comp_y (texture2D N vel (fst uv - 0, snd uv - ty));
          divg = (1 / 2) * (R - L + T - B)
      in (divg, 0, 0, 1))"

definition pressureShader :: "nat \<Rightarrow> texture \<Rightarrow> texture \<Rightarrow> vec2 \<Rightarrow> vec4" where
  "pressureShader N pr dv uv =
     (let tx = fst (texelSize N); ty = snd (texelSize N);
          L = comp_x (texture2D N pr (fst uv - tx, snd uv - 0));
          R = comp_x (texture2D N pr (fst uv + tx, snd uv + 0));
          T = comp_x (texture2D N pr (fst uv + 0, snd uv + ty));
          B = comp_x (texture2D N pr (fst uv - 0, snd uv - ty));
          divg = comp_x (texture2D N dv uv);
          pressure = (L + R + T + B - divg) * (25 / 100)
      in (pressure, 0, 0, 1))"

definition gradientSubtractShader :: "nat \<Rightarrow> texture \<Rightarrow> texture \<Rightarrow> vec2 \<Rightarrow> vec4" where
  "gradientSubtractShader N pr vel uv =
     (let tx = fst (texelSize N); ty = snd (texelSize N);
          L = comp_x (texture2D N pr (fst uv - tx, snd uv - 0));
          R = comp_x (texture2D N pr (fst uv + tx, snd uv + 0));
          T = comp_x (texture2D N pr (fst uv + 0, snd uv + ty));
          B = comp_x (texture2D N pr (fst uv - 0, snd uv - ty));
          v = texture2D N vel uv
      in (comp_x v - (1 / 2) * (R - L), comp_y v - (1 / 2) * (T - B), 0, 1))"

subsection \<open>splat, step and clear\<close>

text \<open>
  \<^verbatim>\<open>splat(u, v, velocityX, velocityY, color)\<close>; the colour arrives as the three
  components that \<^verbatim>\<open>new THREE.Color(color)\<close> yields.
\<close>

definition splat :: "fluidSim \<Rightarrow> real \<Rightarrow> real \<Rightarrow> real \<Rightarrow> real \<Rightarrow> vec3 \<Rightarrow> fluidSim" where
  "splat fs u v velocityX velocityY colorVec =
     (let point = (u, v);
          N = fs_size fs;
          velWrite = renderPass N
             (velocitySplatShader N (fbo_read (fs_velocity fs)) point (velocityX, velocityY)
                (splatRadius (fs_config fs)) (splatStrength (fs_config fs)));
          fs1 = fs\<lparr>fs_velocity := swap ((fs_velocity fs)\<lparr>fbo_write := velWrite\<rparr>)\<rparr>;
          paintWrite = renderPass N
             (paintSplatShader N (fbo_read (fs_paint fs1)) point colorVec
                (splatRadius (fs_config fs1)) (splatStrength (fs_config fs1)))
      in fs1\<lparr>fs_paint := swap ((fs_paint fs1)\<lparr>fbo_write := paintWrite\<rparr>)\<rparr>)"

text \<open>One Jacobi iteration of the pressure loop: render into the write target, swap.\<close>

definition pressureIteration :: "fluidSim \<Rightarrow> fluidSim" where
  "pressureIteration fs =
     (let pw = renderPass (fs_size fs)
                 (pressureShader (fs_size fs) (fbo_read (fs_pressure fs)) (fs_divergence fs))
      in fs\<lparr>fs_pressure := swap ((fs_pressure fs)\<lparr>fbo_write := pw\<rparr>)\<rparr>)"

definition step :: "fluidSim \<Rightarrow> real \<Rightarrow> fluidSim" where
  "step fs dt0 =
     (let dt = min dt0 (33 / 1000);
          N = fs_size fs;
          advect1 = \<lparr>uVelocity = fbo_read (fs_velocity fs), uSource = fbo_read (fs_velocity fs),
                      uDt = dt, uDissipation = velocityDissipation (fs_config fs)\<rparr>;
          vw = renderPass N (advectShader N advect1);
          fs1 = fs\<lparr>fs_velocity := swap ((fs_velocity fs)\<lparr>fbo_write := vw\<rparr>)\<rparr>;
          advect2 = advect1\<lparr>uVelocity := fbo_read (fs_velocity fs1),
                             uSource := fbo_read (fs_paint fs1),
                             uDissipation := paintDissipation (fs_config fs1)\<rparr>;
          pw = renderPass N (advectShader N advect2);
          fs2 = fs1\<lparr>fs_paint := swap ((fs_paint fs1)\<lparr>fbo_write := pw\<rparr>)\<rparr>;
          fs3 = fs2\<lparr>fs_divergence :=
                   renderPass N (divergenceShader N (fbo_read (fs_velocity fs2)))\<rparr>;
          fs4 = fs3\<lparr>fs_pressure :=
                   (fs_pressure fs3)\<lparr>fbo_read := clearTarget (fs_clearColor fs3)\<rparr>\<rparr>;
          fs5 = (pressureIteration ^^ pressureIterations (fs_config fs4)) fs4;
          gw = renderPass N
                 (gradientSubtractShader N (fbo_read (fs_pressure fs5)) (fbo_read (fs_velocity fs5)))
      in fs5\<lparr>fs_velocity := swap ((fs_velocity fs5)\<lparr>fbo_write := gw\<rparr>)\<rparr>)"

definition getTexture :: "fluidSim \<Rightarrow> texture" where
  "getTexture fs = fbo_read (fs_paint fs)"

definition clear :: "fluidSim \<Rightarrow> fluidSim" where
  "clear fs =
     (let c = fs_clearColor fs in
      fs\<lparr>fs_velocity := \<lparr>fbo_read = clearTarget c, fbo_write = clearTarget c\<rparr>,
         fs_paint := \<lparr>fbo_read = clearTarget c, fbo_write = clearTarget c\<rparr>,
         fs_pressure := \<lparr>fbo_read = clearTarget c, fbo_write = clearTarget c\<rparr>,
         fs_lastUV := None\<rparr>)"

text \<open>
  The constructor: fresh targets (WebGL zero-fills a new texture), the default
  configuration, then \<^verbatim>\<open>clear()\<close>.
\<close>

definition newFluidSim :: "vec4 \<Rightarrow> nat \<Rightarrow> fluidSim" where
  "newFluidSim rendererClear N =
     clear
       \<lparr>fs_size = N, fs_config = defaultConfig,
        fs_velocity = \<lparr>fbo_read = (\<lambda>ij. (0, 0, 0, 0)), fbo_write = (\<lambda>ij. (0, 0, 0, 0))\<rparr>,
        fs_paint = \<lparr>fbo_read = (\<lambda>ij. (0, 0, 0, 0)), fbo_write = (\<lambda>ij. (0, 0, 0, 0))\<rparr>,
        fs_pressure = \<lparr>fbo_read = (\<lambda>ij. (0, 0, 0, 0)), fbo_write = (\<lambda>ij. (0, 0, 0, 0))\<rparr>,
        fs_divergence = (\<lambda>ij. (0, 0, 0, 0)),
        fs_lastUV = None,
        fs_clearColor = rendererClear\<rparr>"

subsection \<open>The specification's reading of splat and step\<close>

text \<open>
  The weight of a splat at texel \<open>ij\<close>: the Gaussian of the distance between the texel
  centre and the splat point, scaled by the strength and capped at 1, as the paint shader
  computes it.
\<close>

definition splatWeight :: "fluid_config \<Rightarrow> nat \<Rightarrow> vec2 \<Rightarrow> nat \<times> nat \<Rightarrow> real" where
  "splatWeight cfg N point ij =
     min 1 (splatStrength cfg * exp (- distance (vUv N ij) point * distance (vUv N ij) point / splatRadius cfg))"

text \<open>\<open>n\<close> calls of \<^verbatim>\<open>splat\<close> in a row with the same arguments.\<close>

definition repeatSplat :: "nat \<Rightarrow> fluidSim \<Rightarrow> real \<Rightarrow> real \<Rightarrow> real \<Rightarrow> real \<Rightarrow> vec3 \<Rightarrow> fluidSim" where
  "repeatSplat n fs u v velocityX velocityY colorVec =
     ((\<lambda>f. splat f u v velocityX velocityY colorVec) ^^ n) fs"

text \<open>
  The five passes of \<^verbatim>\<open>step(dt)\<close> as the specification lists them, as a pipeline of
  fields: the result is the velocity field and the paint field after the step.
\<close>

definition step_spec :: "fluidSim \<Rightarrow> real \<Rightarrow> texture \<times> texture" where
  "step_spec fs dt0 =
     (let N = fs_size fs;
          cfg = fs_config fs;
          dt = min dt0 (33 / 1000);
          v0 = fbo_read (fs_velocity fs);
          p0 = fbo_read (fs_paint fs);
          v1 = renderPass N (advectShader N
                 \<lparr>uVelocity = v0, uSource = v0, uDt = dt, uDissipation = velocityDissipation cfg\<rparr>);
          p1 = renderPass N (advectShader N
                 \<lparr>uVelocity = v1, uSource = p0, uDt = dt, uDissipation = paintDissipation cfg\<rparr>);
          dv = renderPass N (divergenceShader N v1);
          pr = ((\<lambda>p. renderPass N (pressureShader N p dv)) ^^ pressureIterations cfg)
                 (clearTarget (fs_clearColor fs));
          v2 = renderPass N (gradientSubtractShader N pr v1)
      in (v2, p1))"

section \<open>BristleSystem: joint chains, constraints and collision\<close>

subsection \<open>Vectors and the collaborators of three.js\<close>

definition v3_add :: "vec3 \<Rightarrow> vec3 \<Rightarrow> vec3" where
  "v3_add p q = (case p of (px, py, pz) \<Rightarrow> case q of (qx, qy, qz) \<Rightarrow> (px + qx, py + qy, pz + qz))"

definition v3_sub :: "vec3 \<Rightarrow> vec3 \<Rightarrow> vec3" where
  "v3_sub p q = (case p of (px, py, pz) \<Rightarrow> case q of (qx, qy, qz) \<Rightarrow> (px - qx, py - qy, pz - qz))"

definition v3_scale :: "real \<Rightarrow> vec3 \<Rightarrow> vec3" where
  "v3_scale k p = (case p of (px, py, pz) \<Rightarrow> (k * px, k * py, k * pz))"

definition v3_dot :: "vec3 \<Rightarrow> vec3 \<Rightarrow> real" where
  "v3_dot p q = (case p of (px, py, pz) \<Rightarrow> case q of (qx, qy, qz) \<Rightarrow> px * qx + py * qy + pz * qz)"

text \<open>\<^verbatim>\<open>Math.sqrt(dx * dx + dy * dy + dz * dz)\<close>.\<close>

definition vlen3 :: "real \<Rightarrow> real \<Rightarrow> real \<Rightarrow> real" where
  "vlen3 dx dy dz = sqrt (dx * dx + dy * dy + dz * dz)"

text \<open>\<^verbatim>\<open>Vector3.normalize()\<close> divides by the length, or by 1 when the length is 0.\<close>

definition v3_normalize :: "vec3 \<Rightarrow> vec3" where
  "v3_normalize p =
     (case p of (px, py, pz) \<Rightarrow>
        let l = (if vlen3 px py pz = 0 then 1 else vlen3 px py pz) in (px / l, py / l, pz / l))"

text \<open>
  A \<^verbatim>\<open>Matrix4\<close> is used in three ways only: \<^verbatim>\<open>v.applyMatrix4(m)\<close>,
  \<^verbatim>\<open>v.applyMatrix4(m.invert())\<close> and \<^verbatim>\<open>v.transformDirection(m.invert())\<close>. It is modelled
  by these three maps.
\<close>

record matrix4 =
  applyTo :: "vec3 \<Rightarrow> vec3"
  applyInverse :: "vec3 \<Rightarrow> vec3"
  inverseDirection :: "vec3 \<Rightarrow> vec3"

text \<open>An intersection as \<^verbatim>\<open>Raycaster.intersectObject\<close> reports it.\<close>

record hit =
  h_distance :: real
  h_point :: vec3
  h_faceNormal :: vec3
  h_uv :: "vec2 option"

text \<open>
  The nail mesh. \<open>m_intersect m origin direction far\<close> is the list that
  \<^verbatim>\<open>raycaster.intersectObject(mesh, true)\<close> returns for a ray with that origin, direction
  and \<^verbatim>\<open>far\<close> (\<open>None\<close> for the default \<^verbatim>\<open>Infinity\<close>), nearest first. \<open>m_boundingBox\<close> is
  the box of the geometry once \<^verbatim>\<open>computeBoundingBox\<close> has run (minimum and maximum corner).
\<close>

record mesh =
  m_intersect :: "vec3 \<Rightarrow> vec3 \<Rightarrow> real option \<Rightarrow> hit list"
  m_hasGeometry :: bool
  m_boundingBox :: "(vec3 \<times> vec3) option"
  m_matrixWorld :: matrix4

subsection \<open>Configuration and state\<close>

text \<open>\<^verbatim>\<open>PHYSICS_CONFIG\<close> and the part of \<^verbatim>\<open>BRUSH_CONFIG\<close> that the physics reads.\<close>

definition bristleLength :: real where "bristleLength = 125 / 10000"
definition jointsPerBristle :: nat where "jointsPerBristle = 4"
definition segmentsPerBristle :: nat where "segmentsPerBristle = jointsPerBristle - 1"
definition gravity :: real where "gravity = - (2 / 100)"
definition constraintIterations :: nat where "constraintIterations = 4"
definition collisionPushback :: real where "collisionPushback = 8 / 10000"
definition physicsTimestep :: real where "physicsTimestep = 1 / 120"
definition headWidth :: real where "headWidth = 75 / 10000"
definition headDepth :: real where "headDepth = 2 / 1000"

text \<open>\<^verbatim>\<open>this.segmentLength\<close>, set once by the constructor.\<close>

definition segmentLength :: real where
  "segmentLength = bristleLength / real segmentsPerBristle"

text \<open>The cap on the time one \<^verbatim>\<open>updatePhysics\<close> call adds to the accumulator.\<close>

definition maxDt :: real where "maxDt = 1 / 10"

text \<open>
  The physics state of the system. The typed arrays are lists: a write outside the array
  is dropped, as \<open>list_update\<close> does. The instanced render mesh, the handle and the scratch
  vectors carry no physics state and are left out.
\<close>

record bristleSystem =
  bristleCount :: nat
  jointPositions :: "real list"
  prevJointPositions :: "real list"
  restDirections :: "real list"
  bristleStiffness :: "real list"
  bristleDamping :: "real list"
  bristleFriction :: "real list"
  physicsAccumulator :: real
  bs_pressure :: real
  isContacting :: bool
  contactPoints :: "contact list"
  brushPosition :: vec3
  brushNormal :: vec3
  group_visible :: bool
  group_matrixWorld :: matrix4
  bs_color :: string

definition jointIdx :: "nat \<Rightarrow> nat \<Rightarrow> nat" where
  "jointIdx i j = (i * jointsPerBristle + j) * 3"

subsection \<open>stepPhysics\<close>

text \<open>The body of the Verlet loop for joint \<open>j\<close> of bristle \<open>i\<close>.\<close>

definition verletJoint :: "real \<Rightarrow> real \<Rightarrow> nat \<Rightarrow> nat \<Rightarrow> bristleSystem \<Rightarrow> bristleSystem" where
  "verletJoint grav damping i j s =
     (let idx = jointIdx i j;
          currX = jointPositions s ! idx;
          currY = jointPositions s ! (idx + 1);
          currZ = jointPositions s ! (idx + 2);
          prevX = prevJointPositions s ! idx;
          prevY = prevJointPositions s ! (idx + 1);
          prevZ = prevJointPositions s ! (idx + 2);
          velX = (currX - prevX) * damping;
          velY = (currY - prevY) * damping;
          velZ = (currZ - prevZ) * damping + grav
      in s\<lparr>prevJointPositions :=
              (prevJointPositions s)[idx := currX, idx + 1 := currY, idx + 2 := currZ],
           jointPositions :=
              (jointPositions s)[idx := currX + velX, idx + 1 := currY + velY, idx + 2 := currZ + velZ]\<rparr>)"

text \<open>The body of the angular stiffness loop.\<close>

definition stiffnessJoint :: "real \<Rightarrow> vec3 \<Rightarrow> nat \<Rightarrow> nat \<Rightarrow> bristleSystem \<Rightarrow> bristleSystem" where
  "stiffnessJoint stiffness restDir i j s =
     (case restDir of (restDirX, restDirY, restDirZ) \<Rightarrow>
      let idx = jointIdx i j;
          parentIdx = (i * jointsPerBristle + j - 1) * 3;
          segLen = segmentLength;
          parentX = jointPositions s ! parentIdx;
          parentY = jointPositions s ! (parentIdx + 1);
          parentZ = jointPositions s ! (parentIdx + 2);
          jx = jointPositions s ! idx;
          jy = jointPositions s ! (idx + 1);
          jz = jointPositions s ! (idx + 2);
          restX = parentX + restDirX * segLen;
          restY = parentY + restDirY * segLen;
          restZ = parentZ + restDirZ * segLen
      in s\<lparr>jointPositions :=
              (jointPositions s)[idx := jx + (restX - jx) * stiffness,
                                 idx + 1 := jy + (restY - jy) * stiffness,
                                 idx + 2 := jz + (restZ - jz) * stiffness]\<rparr>)"

text \<open>The body of the loop over the bristles: both joint loops for bristle \<open>i\<close>.\<close>

definition stepBristle :: "real \<Rightarrow> nat \<Rightarrow> bristleSystem \<Rightarrow> bristleSystem" where
  "stepBristle dt i s =
     (let grav = gravity * dt * dt;
          stiffness = bristleStiffness s ! i;
          damping = bristleDamping s ! i;
          restDirIdx = i * 3;
          restDir = (restDirections s ! restDirIdx, restDirections s ! (restDirIdx + 1),
                     restDirections s ! (restDirIdx + 2));
          s1 = fold (verletJoint grav damping i) [1..<jointsPerBristle] s
      in fold (stiffnessJoint stiffness restDir i) [1..<jointsPerBristle] s1)"

text \<open>The body of the inner loop of \<^verbatim>\<open>satisfyDistanceConstraints\<close>: segment \<open>j\<close> of bristle \<open>i\<close>.\<close>

definition satisfySegment :: "nat \<Rightarrow> nat \<Rightarrow> bristleSystem \<Rightarrow> bristleSystem" where
  "satisfySegment i j s =
     (let segLen = segmentLength;
          j0Idx = (i * jointsPerBristle + j) * 3;
          j1Idx = (i * jointsPerBristle + j + 1) * 3;
          jp = jointPositions s;
          x0 = jp ! j0Idx; y0 = jp ! (j0Idx + 1); z0 = jp ! (j0Idx + 2);
          x1 = jp ! j1Idx; y1 = jp ! (j1Idx + 1); z1 = jp ! (j1Idx + 2);
          dx = x1 - x0; dy = y1 - y0; dz = z1 - z0;
          currentLen = vlen3 dx dy dz
      in if currentLen > 1 / 100000 then
           let correction = (segLen - currentLen) / currentLen in
           if j = 0 then
             s\<lparr>jointPositions :=
                  jp[j1Idx := x1 + dx * correction, j1Idx + 1 := y1 + dy * correction,
                     j1Idx + 2 := z1 + dz * correction]\<rparr>
           else
             let halfCorr = correction * (1 / 2);
                 jp0 = jp[j0Idx := jp ! j0Idx - dx * halfCorr];
                 jp1 = jp0[j0Idx + 1 := jp0 ! (j0Idx + 1) - dy * halfCorr];
                 jp2 = jp1[j0Idx + 2 := jp1 ! (j0Idx + 2) - dz * halfCorr]
             in s\<lparr>jointPositions :=
                     jp2[j1Idx := x1 + dx * halfCorr, j1Idx + 1 := y1 + dy * halfCorr,
                         j1Idx + 2 := z1 + dz * halfCorr]\<rparr>
         else s)"

definition satisfyDistanceConstraints :: "bristleSystem \<Rightarrow> bristleSystem" where
  "satisfyDistanceConstraints s =
     fold (\<lambda>i. fold (satisfySegment i) [0..<segmentsPerBristle]) [0..<bristleCount s] s"

definition stepPhysics :: "real \<Rightarrow> bristleSystem \<Rightarrow> bristleSystem" where
  "stepPhysics dt s =
     (satisfyDistanceConstraints ^^ constraintIterations)
       (fold (stepBristle dt) [0..<bristleCount s] s)"

subsection \<open>updatePhysics: the fixed-timestep accumulator\<close>

text \<open>Frame facts that the termination of the catch-up loop needs.\<close>

lemma fold_keeps:
  assumes "\<And>x s. g (f x s) = g s"
  shows "g (fold f xs s) = g s"
  by (induction xs arbitrary: s) (simp_all add: assms)

lemma funpow_keeps:
  assumes "\<And>s. g (f s) = g s"
  shows "g ((f ^^ n) s) = g s"
  by (induction n) (simp_all add: assms)

lemma verletJoint_physicsAccumulator:
  "physicsAccumulator (verletJoint grav damping i j s) = physicsAccumulator s"
  by (simp add: verletJoint_def Let_def)

lemma stiffnessJoint_physicsAccumulator:
  "physicsAccumulator (stiffnessJoint stiffness restDir i j s) = physicsAccumulator s"
  by (cases restDir) (simp add: stiffnessJoint_def Let_def)

lemma satisfySegment_physicsAccumulator:
  "physicsAccumulator (satisfySegment i j s) = physicsAccumulator s"
  by (simp add: satisfySegment_def Let_def)

lemma stepPhysics_physicsAccumulator:
  "physicsAccumulator (stepPhysics dt s) = physicsAccumulator s"
  by (simp add: stepPhysics_def stepBristle_def satisfyDistanceConstraints_def Let_def
      funpow_keeps fold_keeps verletJoint_physicsAccumulator stiffnessJoint_physicsAccumulator
      satisfySegment_physicsAccumulator)

text \<open>
  The \<^verbatim>\<open>while\<close> loop of \<^verbatim>\<open>updatePhysics\<close>. The second component of the result counts the
  iterations, that is, the fixed-timestep substeps that were run.
\<close>

function physicsLoop :: "bristleSystem \<Rightarrow> bristleSystem \<times> nat" where
  "physicsLoop s =
     (if physicsAccumulator s \<ge> physicsTimestep then
        (case physicsLoop
                ((stepPhysics physicsTimestep s)
                   \<lparr>physicsAccumulator :=
                      physicsAccumulator (stepPhysics physicsTimestep s) - physicsTimestep\<rparr>) of
           (s', n) \<Rightarrow> (s', Suc n))
      else (s, 0))"
  by pat_completeness auto
termination
proof (relation "measure (\<lambda>s. nat \<lfloor>physicsAccumulator s * 120\<rfloor>)")
  show "wf (measure (\<lambda>s. nat \<lfloor>physicsAccumulator s * 120\<rfloor>))" by simp
next
  fix s :: bristleSystem
  assume "physicsTimestep \<le> physicsAccumulator s"
  then have "1 \<le> physicsAccumulator s * 120"
    by (simp add: physicsTimestep_def)
  then have "\<lfloor>physicsAccumulator s * 120 - 1\<rfloor> < \<lfloor>physicsAccumulator s * 120\<rfloor>"
    and "0 < \<lfloor>physicsAccumulator s * 120\<rfloor>"
    by linarith+
  then show "((stepPhysics physicsTimestep s)
                \<lparr>physicsAccumulator :=
                   physicsAccumulator (stepPhysics physicsTimestep s) - physicsTimestep\<rparr>, s)
             \<in> measure (\<lambda>s. nat \<lfloor>physicsAccumulator s * 120\<rfloor>)"
    by (simp add: stepPhysics_physicsAccumulator physicsTimestep_def algebra_simps)
qed

declare physicsLoop.simps [simp del]

definition updatePhysicsCounted :: "real \<Rightarrow> bristleSystem \<Rightarrow> bristleSystem \<times> nat" where
  "updatePhysicsCounted deltaTime s =
     physicsLoop (s\<lparr>physicsAccumulator := physicsAccumulator s + min deltaTime maxDt\<rparr>)"

definition updatePhysics :: "real \<Rightarrow> bristleSystem \<Rightarrow> bristleSystem" where
  "updatePhysics deltaTime s = fst (updatePhysicsCounted deltaTime s)"

subsection \<open>handleCollision\<close>

text \<open>\<^verbatim>\<open>Box3.getSize\<close>: zero for an empty box, otherwise maximum minus minimum.\<close>

definition boxSize :: "vec3 \<times> vec3 \<Rightarrow> vec3" where
  "boxSize b =
     (case b of ((minX, minY, minZ), (maxX, maxY, maxZ)) \<Rightarrow>
        if maxX < minX \<or> maxY < minY \<or> maxZ < minZ then (0, 0, 0)
        else (maxX - minX, maxY - minY, maxZ - minZ))"

definition estimateUVFromHit :: "hit \<Rightarrow> mesh option \<Rightarrow> vec2 option" where
  "estimateUVFromHit h nailMesh =
     (case nailMesh of
        None \<Rightarrow> None
      | Some m \<Rightarrow>
          if \<not> m_hasGeometry m then None
          else (case m_boundingBox m of
                  None \<Rightarrow> None
                | Some bbox \<Rightarrow>
                    (case applyInverse (m_matrixWorld m) (h_point h) of (localX, localY, localZ) \<Rightarrow>
                     case boxSize bbox of (sizeX0, sizeY0, sizeZ0) \<Rightarrow>
                     case fst bbox of (minX, minY, minZ) \<Rightarrow>
                       let sizeX = (if sizeX0 = 0 then 1 else sizeX0);
                           sizeY = (if sizeY0 = 0 then 1 else sizeY0);
                           u = (localX - minX) / sizeX;
                           v = (localY - minY) / sizeY
                       in if u \<ge> 0 \<and> u \<le> 1 \<and> v \<ge> 0 \<and> v \<le> 1 then Some (u, v) else None)))"

definition readVec :: "real list \<Rightarrow> nat \<Rightarrow> vec3" where
  "readVec xs idx = (xs ! idx, xs ! (idx + 1), xs ! (idx + 2))"

definition writeVec :: "real list \<Rightarrow> nat \<Rightarrow> vec3 \<Rightarrow> real list" where
  "writeVec xs idx p = (case p of (px, py, pz) \<Rightarrow> xs[idx := px, idx + 1 := py, idx + 2 := pz])"

text \<open>
  The body of the loop of \<^verbatim>\<open>handleCollision\<close> for bristle \<open>i\<close>, in three parts. First the
  clamp of the tip joint to the hit point, with the friction on the tangential velocity.
\<close>

definition clampTip :: "nat \<Rightarrow> bristleSystem \<Rightarrow> hit \<Rightarrow> real list" where
  "clampTip i s h =
     (let pushback = collisionPushback;
          worldMatrix = group_matrixWorld s;
          friction = bristleFriction s ! i;
          tipIdx = (i * jointsPerBristle + jointsPerBristle - 1) * 3;
          jp = jointPositions s;
          hitPoint = applyInverse worldMatrix
                       (v3_add (h_point h) (v3_scale pushback (h_faceNormal h)));
          vel = v3_sub (readVec jp tipIdx) (readVec (prevJointPositions s) tipIdx);
          normalL = inverseDirection worldMatrix (h_faceNormal h);
          normalVelMag = v3_dot vel normalL;
          tangentVel = v3_sub vel (v3_scale normalVelMag normalL);
          frictionFactor = 1 - friction
      in writeVec jp tipIdx (v3_add hitPoint (v3_scale frictionFactor tangentVel)))"

text \<open>Then the check of joint 2, on the positions \<open>jp1\<close> that the tip clamp left.\<close>

definition clampJoint2 :: "nat \<Rightarrow> bristleSystem \<Rightarrow> hit \<Rightarrow> real list \<Rightarrow> real list" where
  "clampJoint2 i s h jp1 =
     (let pushback = collisionPushback;
          worldMatrix = group_matrixWorld s;
          penetrationDepth = bristleLength - h_distance h;
          segLen = segmentLength;
          joint2Idx = (i * jointsPerBristle + 2) * 3
      in if penetrationDepth > segLen then
           let j2W = applyTo worldMatrix (readVec jp1 joint2Idx);
               j2ToHit = v3_sub j2W (h_point h);
               j2Depth = - v3_dot j2ToHit (h_faceNormal h)
           in if j2Depth > 0 then
                writeVec jp1 joint2Idx
                  (applyInverse worldMatrix
                     (v3_add j2W (v3_scale (j2Depth + pushback * (1 / 2)) (h_faceNormal h))))
              else jp1
         else jp1)"

text \<open>Last the contact point, recorded when the hit has a UV or one can be estimated.\<close>

definition recordContact :: "mesh \<Rightarrow> nat \<Rightarrow> hit \<Rightarrow> contact list \<Rightarrow> contact list" where
  "recordContact nailMesh i h cps =
     (let penetrationDepth = bristleLength - h_distance h;
          pressure = min 1 (penetrationDepth / (bristleLength * (1 / 2)));
          uv = (case h_uv h of Some uv0 \<Rightarrow> Some uv0
                | None \<Rightarrow> estimateUVFromHit h (Some nailMesh))
      in case uv of
           Some uv1 \<Rightarrow>
             cps @ [\<lparr>c_position = h_point h, c_uv = uv1, c_normal = h_faceNormal h,
                     c_pressure = max (15 / 100) pressure, c_bristleIndex = i\<rparr>]
         | None \<Rightarrow> cps)"

definition collideBristle :: "mesh \<Rightarrow> nat \<Rightarrow> bristleSystem \<Rightarrow> bristleSystem" where
  "collideBristle nailMesh i s =
     (let worldMatrix = group_matrixWorld s;
          baseIdx = (i * jointsPerBristle) * 3;
          tipIdx = (i * jointsPerBristle + jointsPerBristle - 1) * 3;
          baseW = applyTo worldMatrix (readVec (jointPositions s) baseIdx);
          tipW = applyTo worldMatrix (readVec (jointPositions s) tipIdx);
          dir = v3_normalize (v3_sub tipW baseW)
      in case m_intersect nailMesh baseW dir (Some (bristleLength * (13 / 10))) of
           [] \<Rightarrow> s
         | h # rest \<Rightarrow>
             if h_distance h < bristleLength * (115 / 100) then
               s\<lparr>jointPositions := clampJoint2 i s h (clampTip i s h),
                  contactPoints := recordContact nailMesh i h (contactPoints s)\<rparr>
             else s)"

definition handleCollision :: "mesh option \<Rightarrow> bristleSystem \<Rightarrow> bristleSystem" where
  "handleCollision nailMesh s =
     (let s0 = s\<lparr>contactPoints := []\<rparr> in
      case nailMesh of
        None \<Rightarrow> s0
      | Some m \<Rightarrow>
          if \<not> isContacting s0 then s0
          else fold (collideBristle m) [0..<bristleCount s0] s0)"

subsection \<open>applySplay, update and the setters\<close>

text \<open>The body of the joint loop of \<^verbatim>\<open>applySplay\<close>.\<close>

definition splayJoint :: "real \<Rightarrow> real \<Rightarrow> real \<Rightarrow> nat \<Rightarrow> nat \<Rightarrow> bristleSystem \<Rightarrow> bristleSystem" where
  "splayJoint normalizedX normalizedY pressure i j s =
     (let idx = jointIdx i j;
          t = real j / real segmentsPerBristle;
          splayScale = t * t;
          splayForceX = normalizedX * pressure * (8 / 10000) * splayScale;
          splayForceY = normalizedY * pressure * (4 / 10000) * splayScale;
          compressZ = pressure * (3 / 10000) * splayScale;
          jp0 = jointPositions s;
          jp1 = jp0[idx := jp0 ! idx + splayForceX];
          jp2 = jp1[idx + 1 := jp1 ! (idx + 1) + splayForceY]
      in s\<lparr>jointPositions := jp2[idx + 2 := jp2 ! (idx + 2) - compressZ]\<rparr>)"

definition splayBristle :: "real \<Rightarrow> nat \<Rightarrow> bristleSystem \<Rightarrow> bristleSystem" where
  "splayBristle pressure i s =
     (let baseIdx = (i * jointsPerBristle) * 3;
          baseX = jointPositions s ! baseIdx;
          baseY = jointPositions s ! (baseIdx + 1);
          normalizedX = baseX / (headWidth / 2);
          normalizedY = baseY / (headDepth / 2)
      in fold (splayJoint normalizedX normalizedY pressure i) [1..<jointsPerBristle] s)"

definition applySplay :: "real \<Rightarrow> bristleSystem \<Rightarrow> bristleSystem" where
  "applySplay pressure s =
     (if pressure \<le> 0 then s else fold (splayBristle pressure) [0..<bristleCount s] s)"

text \<open>
  \<^verbatim>\<open>update(deltaTime, nailMesh, raycaster)\<close>: splay, physics, collision. The counted
  variant also returns the number of physics substeps; \<open>bs_update\<close> returns the contact
  list and the state, as the method does.
\<close>

definition updateCounted ::
  "real \<Rightarrow> mesh option \<Rightarrow> bristleSystem \<Rightarrow> contact list \<times> bristleSystem \<times> nat" where
  "updateCounted deltaTime nailMesh s =
     (let s1 = (if bs_pressure s > 0 then applySplay (bs_pressure s) s else s) in
      case updatePhysicsCounted deltaTime s1 of
        (s2, n) \<Rightarrow> let s3 = handleCollision nailMesh s2 in (contactPoints s3, s3, n))"

definition bs_update :: "real \<Rightarrow> mesh option \<Rightarrow> bristleSystem \<Rightarrow> contact list \<times> bristleSystem" where
  "bs_update deltaTime nailMesh s =
     (case updateCounted deltaTime nailMesh s of (contacts, s', n) \<Rightarrow> (contacts, s'))"

definition setBrushTransform :: "vec3 \<Rightarrow> vec3 \<Rightarrow> bristleSystem \<Rightarrow> bristleSystem" where
  "setBrushTransform position normal s = s\<lparr>brushPosition := position, brushNormal := normal\<rparr>"

definition bs_setColor :: "string \<Rightarrow> bristleSystem \<Rightarrow> bristleSystem" where
  "bs_setColor color s = s\<lparr>bs_color := color\<rparr>"

definition setVisible :: "bool \<Rightarrow> bristleSystem \<Rightarrow> bristleSystem" where
  "setVisible visible s = s\<lparr>group_visible := visible\<rparr>"

subsection \<open>Observations on a bristle\<close>

text \<open>The position of joint \<open>j\<close> of bristle \<open>i\<close>, and the base joint, which is joint 0.\<close>

definition jointPos :: "bristleSystem \<Rightarrow> nat \<Rightarrow> nat \<Rightarrow> vec3" where
  "jointPos s i j = readVec (jointPositions s) (jointIdx i j)"

definition baseJoint :: "bristleSystem \<Rightarrow> nat \<Rightarrow> vec3" where
  "baseJoint s i = jointPos s i 0"

text \<open>The length of segment \<open>j\<close> of bristle \<open>i\<close>, between the joints \<open>j\<close> and \<open>j + 1\<close>.\<close>

definition segmentLen :: "bristleSystem \<Rightarrow> nat \<Rightarrow> nat \<Rightarrow> real" where
  "segmentLen s i j =
     (case v3_sub (jointPos s i (j + 1)) (jointPos s i j) of (dx, dy, dz) \<Rightarrow> vlen3 dx dy dz)"

section \<open>Concrete inputs\<close>

text \<open>A stroke in progress on the 1024 pixel canvas, one contact at the centre of the nail.\<close>

definition strokeState :: applicator where
  "strokeState =
     \<lparr>dim = 1024, lastPaintedPos = Some (512, 512), paintedCells = {|(3, 4)|}, cellSize = 16\<rparr>"

definition centreContact :: contact where
  "centreContact =
     \<lparr>c_position = (0, 0, 0), c_uv = (1 / 2, 1 / 2), c_normal = (0, 0, 1),
      c_pressure = 1, c_bristleIndex = 0\<rparr>"

text \<open>A colour parser that answers the default pink of \<^verbatim>\<open>parseColor\<close>.\<close>

definition pinkParser :: "string \<Rightarrow> vec3" where
  "pinkParser color = (255, 42, 109)"

text \<open>A simulator of \<open>2 \<times> 2\<close> texels, as constructed, on a renderer that clears to transparent black.\<close>

definition freshSim :: fluidSim where
  "freshSim = newFluidSim (0, 0, 0, 0) 2"

text \<open>
  One bristle at rest along the local z axis: the four joints one segment length
  (\<open>0.0125 / 3\<close>) apart, no velocity, the brush at the origin with the identity as its
  world matrix.
\<close>

definition identityMatrix :: matrix4 where
  "identityMatrix = \<lparr>applyTo = (\<lambda>p. p), applyInverse = (\<lambda>p. p), inverseDirection = v3_normalize\<rparr>"

definition restBristle :: bristleSystem where
  "restBristle =
     \<lparr>bristleCount = 1,
      jointPositions = [0, 0, 0, 0, 0, 1 / 240, 0, 0, 1 / 120, 0, 0, 1 / 80],
      prevJointPositions = [0, 0, 0, 0, 0, 1 / 240, 0, 0, 1 / 120, 0, 0, 1 / 80],
      restDirections = [0, 0, 1],
      bristleStiffness = [15 / 100],
      bristleDamping = [92 / 100],
      bristleFriction = [4 / 10],
      physicsAccumulator = 0,
      bs_pressure = 0,
      isContacting = False,
      contactPoints = [],
      brushPosition = (0, 0, 0),
      brushNormal = (0, 0, 1),
      group_visible = False,
      group_matrixWorld = identityMatrix,
      bs_color = ''#ff2a6d''\<rparr>"

section \<open>The fallback painter: throttling and the first point of a stroke\<close>

lemma centroid_centreContact: "getPositionFromContacts strokeState [centreContact] = (512, 512)"
  by (simp add: getPositionFromContacts_def accumulateContact_def contactWeight_def
      strokeState_def centreContact_def)

text \<open>
  Claim C7. When the contact set is not empty and its pressure-weighted centroid is
  strictly closer than \<open>minDistance\<close> to the last painted point, \<^verbatim>\<open>paint\<close> returns 0 and
  changes nothing: no stroke reaches the canvas, and the applicator (its coverage grid
  and its last painted point) is the one before the call.
\<close>

theorem paint_below_minDistance_noop:
  assumes "cs \<noteq> []"
    and "lastPaintedPos a = Some lp"
    and "sqrt ((fst (getPositionFromContacts a cs) - fst lp) * (fst (getPositionFromContacts a cs) - fst lp)
             + (snd (getPositionFromContacts a cs) - snd lp) * (snd (getPositionFromContacts a cs) - snd lp))
           < minDistance"
  shows "paint pc a ctx (Some cs) color opacity = (0, a, ctx)"
  using assms by (simp add: paint_def Let_def split: option.splits)

theorem paint_below_minDistance_noop_witness:
  "[centreContact] \<noteq> [] \<and> lastPaintedPos strokeState = Some (512, 512) \<and>
   paint pinkParser strokeState (Some []) (Some [centreContact]) ''#ff2a6d'' 1 = (0, strokeState, Some [])"
  using paint_below_minDistance_noop [where cs = "[centreContact]" and a = strokeState
      and lp = "(512, 512)" and ctx = "Some []" and pc = pinkParser and color = "''#ff2a6d''" and opacity = 1]
  by (simp add: centroid_centreContact minDistance_def) (simp add: strokeState_def)

text \<open>
  Claim C10. The first \<^verbatim>\<open>paint\<close> after \<^verbatim>\<open>resetStroke\<close> returns 0, leaves the canvas
  and the coverage grid as they were, and at most records the centroid (it records it
  when there is a context and a non-empty contact list). In any state, \<^verbatim>\<open>paint\<close>
  returns 1 exactly when a last painted point exists and the centroid of the non-empty
  contact list is at least \<open>minDistance\<close> away from it: a stroke draws nothing before its
  second sufficiently distant centroid.
\<close>

theorem first_paint_after_reset_records_only:
  "paint pc (resetStroke a) ctx contacts color opacity =
     (0,
      (resetStroke a)\<lparr>lastPaintedPos :=
         (case ctx of None \<Rightarrow> None
          | Some c \<Rightarrow> (case contacts of None \<Rightarrow> None
             | Some cs \<Rightarrow> if cs = [] then None else Some (getPositionFromContacts (resetStroke a) cs)))\<rparr>,
      ctx)
   \<and> paintedCells (fst (snd (paint pc (resetStroke a) ctx contacts color opacity))) = paintedCells a
   \<and> (fst (paint pc b ctx contacts color opacity) = 1 \<longleftrightarrow>
        (\<exists>c cs lp. ctx = Some c \<and> contacts = Some cs \<and> cs \<noteq> [] \<and> lastPaintedPos b = Some lp \<and>
           \<not> sqrt ((fst (getPositionFromContacts b cs) - fst lp) * (fst (getPositionFromContacts b cs) - fst lp)
                + (snd (getPositionFromContacts b cs) - snd lp) * (snd (getPositionFromContacts b cs) - snd lp))
              < minDistance))"
proof -
  have first: "paint pc (resetStroke a) ctx contacts color opacity =
     (0,
      (resetStroke a)\<lparr>lastPaintedPos :=
         (case ctx of None \<Rightarrow> None
          | Some c \<Rightarrow> (case contacts of None \<Rightarrow> None
             | Some cs \<Rightarrow> if cs = [] then None else Some (getPositionFromContacts (resetStroke a) cs)))\<rparr>,
      ctx)"
    by (simp add: paint_def resetStroke_def Let_def split: option.splits)
  have cells: "paintedCells (fst (snd (paint pc (resetStroke a) ctx contacts color opacity))) = paintedCells a"
    by (simp add: first) (simp add: resetStroke_def)
  have draws: "fst (paint pc b ctx contacts color opacity) = 1 \<longleftrightarrow>
        (\<exists>c cs lp. ctx = Some c \<and> contacts = Some cs \<and> cs \<noteq> [] \<and> lastPaintedPos b = Some lp \<and>
           \<not> sqrt ((fst (getPositionFromContacts b cs) - fst lp) * (fst (getPositionFromContacts b cs) - fst lp)
                + (snd (getPositionFromContacts b cs) - snd lp) * (snd (getPositionFromContacts b cs) - snd lp))
              < minDistance)"
    by (auto simp add: paint_def Let_def split: option.splits prod.splits)
  from first cells draws show ?thesis by blast
qed

section \<open>The fluid solver: splat and step\<close>

lemma mix_zero: "mix x y 0 = x"
  by (simp add: mix_def)

lemma mix4_zero: "mix4 p q 0 = p"
  by (cases p, cases q) (simp add: mix4_def mix_zero)

lemma clampIndex_in_grid: "i < N \<Longrightarrow> clampIndex N (int i) = i"
  by (simp add: clampIndex_def)

lemma texture2D_texel_centre:
  assumes "fst ij < N" "snd ij < N"
  shows "texture2D N t (vUv N ij) = t ij"
proof -
  obtain i j where ij: "ij = (i, j)" by (cases ij)
  from assms ij have N: "real N \<noteq> 0" by auto
  have x: "(real i + 1 / 2) / real N * real N - 1 / 2 = real i"
    and y: "(real j + 1 / 2) / real N * real N - 1 / 2 = real j"
    using N by simp_all
  have fi: "\<lfloor>real i\<rfloor> = int i" and fj: "\<lfloor>real j\<rfloor> = int j" by simp_all
  show ?thesis
    using assms ij
    by (simp add: texture2D_def vUv_def x y Let_def mix4_zero clampIndex_in_grid)
qed

lemma mix_closed_form: "mix x c w = c + (1 - w) * (x - c)"
  by (simp add: mix_def algebra_simps)

lemma splat_size [simp]: "fs_size (splat fs u v vx vy col) = fs_size fs"
  by (simp add: splat_def Let_def)

lemma splat_config [simp]: "fs_config (splat fs u v vx vy col) = fs_config fs"
  by (simp add: splat_def Let_def)

lemma splat_paint_read:
  "getTexture (splat fs u v vx vy col) =
     renderPass (fs_size fs)
       (paintSplatShader (fs_size fs) (getTexture fs) (u, v) col
          (splatRadius (fs_config fs)) (splatStrength (fs_config fs)))"
  by (simp add: splat_def getTexture_def Let_def swap_def)

lemma splat_texel:
  assumes "fst ij < fs_size fs" "snd ij < fs_size fs"
  shows "getTexture (splat fs u v vx vy (cr, cg, cb)) ij =
     (mix (comp_x (getTexture fs ij)) cr (splatWeight (fs_config fs) (fs_size fs) (u, v) ij),
      mix (comp_y (getTexture fs ij)) cg (splatWeight (fs_config fs) (fs_size fs) (u, v) ij),
      mix (comp_z (getTexture fs ij)) cb (splatWeight (fs_config fs) (fs_size fs) (u, v) ij),
      max (comp_w (getTexture fs ij)) (splatWeight (fs_config fs) (fs_size fs) (u, v) ij))"
  using assms
  by (simp add: splat_paint_read renderPass_def paintSplatShader_def texture2D_texel_centre
      splatWeight_def Let_def)

lemma splatWeight_range:
  assumes "0 < splatStrength cfg"
  shows "0 < splatWeight cfg N p ij \<and> splatWeight cfg N p ij \<le> 1"
  using assms by (simp add: splatWeight_def)

lemma repeatSplat_size [simp]: "fs_size (repeatSplat n fs u v vx vy col) = fs_size fs"
  by (induction n) (simp_all add: repeatSplat_def)

lemma repeatSplat_config [simp]: "fs_config (repeatSplat n fs u v vx vy col) = fs_config fs"
  by (induction n) (simp_all add: repeatSplat_def)

lemma repeatSplat_Suc:
  "repeatSplat (Suc n) fs u v vx vy col = splat (repeatSplat n fs u v vx vy col) u v vx vy col"
  by (simp add: repeatSplat_def)

lemma repeatSplat_colour:
  assumes "fst ij < fs_size fs" "snd ij < fs_size fs"
  shows "comp_x (getTexture (repeatSplat n fs u v vx vy (cr, cg, cb)) ij) =
           cr + (1 - splatWeight (fs_config fs) (fs_size fs) (u, v) ij) ^ n * (comp_x (getTexture fs ij) - cr)
       \<and> comp_y (getTexture (repeatSplat n fs u v vx vy (cr, cg, cb)) ij) =
           cg + (1 - splatWeight (fs_config fs) (fs_size fs) (u, v) ij) ^ n * (comp_y (getTexture fs ij) - cg)
       \<and> comp_z (getTexture (repeatSplat n fs u v vx vy (cr, cg, cb)) ij) =
           cb + (1 - splatWeight (fs_config fs) (fs_size fs) (u, v) ij) ^ n * (comp_z (getTexture fs ij) - cb)"
proof (induction n)
  case 0
  show ?case by (simp add: repeatSplat_def)
next
  case (Suc n)
  have in_grid: "fst ij < fs_size (repeatSplat n fs u v vx vy (cr, cg, cb))"
    "snd ij < fs_size (repeatSplat n fs u v vx vy (cr, cg, cb))"
    using assms by simp_all
  show ?case
    using Suc
    by (simp add: repeatSplat_Suc splat_texel [OF in_grid] comp_x_def comp_y_def comp_z_def
        mix_closed_form)
qed

lemma geometric_tends_to_colour:
  fixes w c x0 :: real
  assumes "0 < w" "w \<le> 1"
  shows "(\<lambda>n. c + (1 - w) ^ n * (x0 - c)) \<longlonglongrightarrow> c"
proof -
  have "(\<lambda>n. (1 - w) ^ n) \<longlonglongrightarrow> 0"
    using assms by (intro LIMSEQ_realpow_zero) simp_all
  then have "(\<lambda>n. (1 - w) ^ n * (x0 - c)) \<longlonglongrightarrow> 0 * (x0 - c)"
    by (intro tendsto_mult tendsto_const)
  then have "(\<lambda>n. c + (1 - w) ^ n * (x0 - c)) \<longlonglongrightarrow> c + 0 * (x0 - c)"
    by (intro tendsto_add tendsto_const)
  then show ?thesis by simp
qed


lemma mix_unit_interval:
  assumes "0 \<le> x" "x \<le> 1" "0 \<le> y" "y \<le> 1" "0 \<le> a" "a \<le> 1"
  shows "0 \<le> mix x y a \<and> mix x y a \<le> 1"
proof -
  have "mix x y a \<le> 1 * (1 - a) + 1 * a"
    unfolding mix_def using assms by (intro add_mono mult_right_mono) simp_all
  moreover have "0 \<le> mix x y a"
    unfolding mix_def using assms by simp
  ultimately show ?thesis by simp
qed

lemma comp_w_mix4: "comp_w (mix4 p q a) = mix (comp_w p) (comp_w q) a"
  by (cases p, cases q) (simp add: mix4_def comp_w_def)

lemma texture2D_alpha_range:
  assumes "\<forall>q. 0 \<le> comp_w (t q) \<and> comp_w (t q) \<le> 1"
  shows "0 \<le> comp_w (texture2D N t uv) \<and> comp_w (texture2D N t uv) \<le> 1"
proof -
  have frac: "0 \<le> x - real_of_int \<lfloor>x\<rfloor> \<and> x - real_of_int \<lfloor>x\<rfloor> \<le> 1" for x :: real
    by linarith
  show ?thesis
    unfolding texture2D_def Let_def comp_w_mix4
    by (intro mix_unit_interval conjunct1 [OF mix_unit_interval] conjunct2 [OF mix_unit_interval]
          conjunct1 [OF frac] conjunct2 [OF frac] conjunct1 [OF assms [rule_format]]
          conjunct2 [OF assms [rule_format]])
qed

lemma splat_alpha_range:
  assumes "\<forall>q. 0 \<le> comp_w (getTexture fs q) \<and> comp_w (getTexture fs q) \<le> 1"
  shows "0 \<le> comp_w (getTexture (splat fs u v vx vy col) q) \<and>
         comp_w (getTexture (splat fs u v vx vy col) q) \<le> 1"
proof -
  obtain cr cg cb where col: "col = (cr, cg, cb)" by (cases col)
  have "0 \<le> comp_w (texture2D (fs_size fs) (getTexture fs) (vUv (fs_size fs) q))
      \<and> comp_w (texture2D (fs_size fs) (getTexture fs) (vUv (fs_size fs) q)) \<le> 1"
    using assms by (rule texture2D_alpha_range)
  then show ?thesis
    by (simp add: splat_paint_read renderPass_def paintSplatShader_def col Let_def comp_w_def
        max_def min_def)
qed

text \<open>
  Claim C2. At every texel of the grid, the alpha after \<^verbatim>\<open>splat\<close> is the maximum of the
  old alpha and the splat weight (never their sum); when all alphas were in \<open>[0, 1]\<close> before,
  they all are afterwards. After \<open>n\<close> splats of one colour at one point each colour
  channel is the colour plus \<open>(1 - w) ^ n\<close> times the initial difference, with
  \<open>0 \<le> 1 - w < 1\<close>: it stays between the old value and the colour and tends to the colour.
  The splat strength is taken positive, as the configuration of the simulator has it.
\<close>

theorem splat_alpha_is_max_and_colour_converges:
  assumes "fst ij < fs_size fs" and "snd ij < fs_size fs"
    and "0 < splatStrength (fs_config fs)"
    and "\<forall>q. 0 \<le> comp_w (getTexture fs q) \<and> comp_w (getTexture fs q) \<le> 1"
  shows "comp_w (getTexture (splat fs u v vx vy (cr, cg, cb)) ij) =
           max (comp_w (getTexture fs ij)) (splatWeight (fs_config fs) (fs_size fs) (u, v) ij)
       \<and> (\<forall>q. 0 \<le> comp_w (getTexture (splat fs u v vx vy (cr, cg, cb)) q) \<and>
                comp_w (getTexture (splat fs u v vx vy (cr, cg, cb)) q) \<le> 1)
       \<and> (\<forall>n. comp_x (getTexture (repeatSplat n fs u v vx vy (cr, cg, cb)) ij) =
                  cr + (1 - splatWeight (fs_config fs) (fs_size fs) (u, v) ij) ^ n * (comp_x (getTexture fs ij) - cr)
              \<and> comp_y (getTexture (repeatSplat n fs u v vx vy (cr, cg, cb)) ij) =
                  cg + (1 - splatWeight (fs_config fs) (fs_size fs) (u, v) ij) ^ n * (comp_y (getTexture fs ij) - cg)
              \<and> comp_z (getTexture (repeatSplat n fs u v vx vy (cr, cg, cb)) ij) =
                  cb + (1 - splatWeight (fs_config fs) (fs_size fs) (u, v) ij) ^ n * (comp_z (getTexture fs ij) - cb))
       \<and> 0 \<le> 1 - splatWeight (fs_config fs) (fs_size fs) (u, v) ij
       \<and> 1 - splatWeight (fs_config fs) (fs_size fs) (u, v) ij < 1
       \<and> (\<lambda>n. comp_x (getTexture (repeatSplat n fs u v vx vy (cr, cg, cb)) ij)) \<longlonglongrightarrow> cr
       \<and> (\<lambda>n. comp_y (getTexture (repeatSplat n fs u v vx vy (cr, cg, cb)) ij)) \<longlonglongrightarrow> cg
       \<and> (\<lambda>n. comp_z (getTexture (repeatSplat n fs u v vx vy (cr, cg, cb)) ij)) \<longlonglongrightarrow> cb"
proof -
  let ?w = "splatWeight (fs_config fs) (fs_size fs) (u, v) ij"
  have w: "0 < ?w \<and> ?w \<le> 1"
    using assms(3) by (rule splatWeight_range)
  have alpha: "comp_w (getTexture (splat fs u v vx vy (cr, cg, cb)) ij) = max (comp_w (getTexture fs ij)) ?w"
    by (simp add: splat_texel [OF assms(1,2)] comp_w_def)
  have inv: "\<forall>q. 0 \<le> comp_w (getTexture (splat fs u v vx vy (cr, cg, cb)) q) \<and>
                comp_w (getTexture (splat fs u v vx vy (cr, cg, cb)) q) \<le> 1"
    using splat_alpha_range [OF assms(4)] by blast
  note closed = repeatSplat_colour [OF assms(1,2), of _ u v vx vy cr cg cb]
  have lx: "(\<lambda>n. comp_x (getTexture (repeatSplat n fs u v vx vy (cr, cg, cb)) ij)) \<longlonglongrightarrow> cr"
    using geometric_tends_to_colour [of ?w cr "comp_x (getTexture fs ij)"] w closed by simp
  have ly: "(\<lambda>n. comp_y (getTexture (repeatSplat n fs u v vx vy (cr, cg, cb)) ij)) \<longlonglongrightarrow> cg"
    using geometric_tends_to_colour [of ?w cg "comp_y (getTexture fs ij)"] w closed by simp
  have lz: "(\<lambda>n. comp_z (getTexture (repeatSplat n fs u v vx vy (cr, cg, cb)) ij)) \<longlonglongrightarrow> cb"
    using geometric_tends_to_colour [of ?w cb "comp_z (getTexture fs ij)"] w closed by simp
  from alpha inv closed w lx ly lz show ?thesis by simp
qed

lemma freshSim_paint: "getTexture freshSim = (\<lambda>ij. (0, 0, 0, 0))"
  by (simp add: freshSim_def newFluidSim_def clear_def getTexture_def clearTarget_def Let_def)

lemma freshSim_size: "fs_size freshSim = 2"
  by (simp add: freshSim_def newFluidSim_def clear_def Let_def)

lemma freshSim_config: "fs_config freshSim = defaultConfig"
  by (simp add: freshSim_def newFluidSim_def clear_def Let_def)

lemma freshSim_centre_weight: "splatWeight defaultConfig 2 (1 / 4, 1 / 4) (0, 0) = 1"
  by (simp add: splatWeight_def defaultConfig_def distance_def vUv_def)

theorem splat_alpha_is_max_and_colour_converges_witness:
  "fst (0, 0) < fs_size freshSim \<and> snd (0, 0) < fs_size freshSim
   \<and> 0 < splatStrength (fs_config freshSim)
   \<and> (\<forall>q. 0 \<le> comp_w (getTexture freshSim q) \<and> comp_w (getTexture freshSim q) \<le> 1)
   \<and> comp_w (getTexture (splat freshSim (1 / 4) (1 / 4) 0 0 (1, 0, 1 / 2)) (0, 0)) = 1
   \<and> comp_x (getTexture (repeatSplat 3 freshSim (1 / 4) (1 / 4) 0 0 (1, 0, 1 / 2)) (0, 0)) = 1"
proof -
  have h1: "fst (0, 0) < fs_size freshSim" and h2: "snd (0, 0) < fs_size freshSim"
    by (simp_all add: freshSim_size)
  have h3: "0 < splatStrength (fs_config freshSim)"
    by (simp add: freshSim_config defaultConfig_def)
  have h4: "\<forall>q. 0 \<le> comp_w (getTexture freshSim q) \<and> comp_w (getTexture freshSim q) \<le> 1"
    by (simp add: freshSim_paint comp_w_def)
  from splat_alpha_is_max_and_colour_converges [OF h1 h2 h3 h4, of "1 / 4" "1 / 4" 0 0 1 0 "1 / 2"]
  have "comp_w (getTexture (splat freshSim (1 / 4) (1 / 4) 0 0 (1, 0, 1 / 2)) (0, 0)) = 1"
    and "comp_x (getTexture (repeatSplat 3 freshSim (1 / 4) (1 / 4) 0 0 (1, 0, 1 / 2)) (0, 0)) = 1"
    by (simp_all add: freshSim_size freshSim_config freshSim_centre_weight freshSim_paint comp_w_def comp_x_def)
  with h1 h2 h3 h4 show ?thesis by blast
qed

lemma pressureIteration_frame:
  "fs_size ((pressureIteration ^^ k) fs) = fs_size fs \<and>
   fs_config ((pressureIteration ^^ k) fs) = fs_config fs \<and>
   fs_velocity ((pressureIteration ^^ k) fs) = fs_velocity fs \<and>
   fs_paint ((pressureIteration ^^ k) fs) = fs_paint fs \<and>
   fs_divergence ((pressureIteration ^^ k) fs) = fs_divergence fs"
  by (induction k) (simp_all add: pressureIteration_def Let_def)

lemma pressureIteration_read:
  "fbo_read (fs_pressure ((pressureIteration ^^ k) fs)) =
     ((\<lambda>p. renderPass (fs_size fs) (pressureShader (fs_size fs) p (fs_divergence fs))) ^^ k)
       (fbo_read (fs_pressure fs))"
proof (induction k)
  case 0
  show ?case by simp
next
  case (Suc k)
  then show ?case
    by (simp add: pressureIteration_def [of "(pressureIteration ^^ k) fs"] Let_def swap_def
        pressureIteration_frame)
qed

text \<open>
  Claim C8. The velocity and paint fields that \<^verbatim>\<open>step(dt)\<close> leaves in the read buffers
  are those of the specification's pipeline \<open>step_spec\<close>: \<open>dt\<close> clamped to 0.033, velocity
  advected against itself, paint advected against the advected velocity, divergence, the
  Jacobi iterations from the cleared pressure, gradient subtraction. The configuration of
  a constructed simulator has velocity dissipation 0.85, below 1, paint dissipation 1 and
  ten pressure iterations, and \<^verbatim>\<open>step\<close> does not change it.
\<close>

theorem step_is_the_clamped_pass_sequence:
  "fbo_read (fs_velocity (step fs dt)) = fst (step_spec fs dt)
   \<and> fbo_read (fs_paint (step fs dt)) = snd (step_spec fs dt)
   \<and> fs_config (step fs dt) = fs_config fs
   \<and> fs_config (newFluidSim c N) = defaultConfig
   \<and> velocityDissipation defaultConfig < 1
   \<and> paintDissipation defaultConfig = 1
   \<and> pressureIterations defaultConfig = 10"
  by (simp add: step_def step_spec_def Let_def swap_def pressureIteration_frame
      pressureIteration_read newFluidSim_def clear_def defaultConfig_def)

section \<open>The bristle system: anchoring, substeps and constraints\<close>

lemma fold_keeps_on:
  assumes "\<And>x s. x \<in> set xs \<Longrightarrow> g (f x s) = g s"
  shows "g (fold f xs s) = g s"
  using assms by (induction xs arbitrary: s) simp_all

lemma joint_entry_mod:
  fixes i j k :: nat
  assumes "j < 4" "k < 3"
  shows "((i * jointsPerBristle + j) * 3 + k) mod 12 = 3 * j + k"
proof -
  have eq: "(i * jointsPerBristle + j) * 3 + k = 12 * i + (3 * j + k)"
    unfolding jointsPerBristle_def by simp
  have lt: "3 * j + k < 12" using assms by simp
  show ?thesis
    by (subst eq) (simp add: lt)
qed

lemma movable_entry:
  fixes i j k n :: nat
  assumes "n mod 12 < 3" "1 \<le> j" "j < 4" "k < 3"
  shows "(i * jointsPerBristle + j) * 3 + k \<noteq> n"
proof
  assume "(i * jointsPerBristle + j) * 3 + k = n"
  then have "n mod 12 = 3 * j + k"
    using joint_entry_mod [OF assms(3,4), of i] by simp
  with assms(1,2) show False by simp
qed

lemma movable_joint:
  assumes "n mod 12 < 3" "1 \<le> j" "j < 4"
  shows "jointIdx i j \<noteq> n" "jointIdx i j + 1 \<noteq> n" "jointIdx i j + 2 \<noteq> n"
  using movable_entry [OF assms, of 0 i] movable_entry [OF assms, of 1 i]
    movable_entry [OF assms, of 2 i]
  by (simp_all add: jointIdx_def)

lemma verletJoint_base:
  assumes "n mod 12 < 3" "1 \<le> j" "j < 4"
  shows "jointPositions (verletJoint grav damping i j s) ! n = jointPositions s ! n"
  using movable_joint [OF assms, of i] by (simp add: verletJoint_def Let_def)

lemma stiffnessJoint_base:
  assumes "n mod 12 < 3" "1 \<le> j" "j < 4"
  shows "jointPositions (stiffnessJoint stiffness restDir i j s) ! n = jointPositions s ! n"
  using movable_joint [OF assms, of i] by (cases restDir) (simp add: stiffnessJoint_def Let_def)

lemma splayJoint_base:
  assumes "n mod 12 < 3" "1 \<le> j" "j < 4"
  shows "jointPositions (splayJoint nx ny pressure i j s) ! n = jointPositions s ! n"
  using movable_joint [OF assms, of i] by (simp add: splayJoint_def Let_def)

lemma satisfySegment_base:
  assumes "n mod 12 < 3" "j < 3"
  shows "jointPositions (satisfySegment i j s) ! n = jointPositions s ! n"
proof -
  have up: "1 \<le> j + 1" "j + 1 < 4" using assms(2) by simp_all
  note hi = movable_joint [OF assms(1) up, of i]
  show ?thesis
  proof (cases "j = 0")
    case True
    then show ?thesis
      using hi by (simp add: satisfySegment_def Let_def jointIdx_def)
  next
    case False
    then have lo: "1 \<le> j" "j < 4" using assms(2) by simp_all
    note lo' = movable_joint [OF assms(1) lo, of i]
    show ?thesis
      using False hi lo' by (simp add: satisfySegment_def Let_def jointIdx_def)
  qed
qed

lemma writeVec_other:
  assumes "idx \<noteq> n" "idx + 1 \<noteq> n" "idx + 2 \<noteq> n"
  shows "writeVec xs idx p ! n = xs ! n"
  using assms by (cases p) (simp add: writeVec_def)

lemma clampTip_base:
  assumes "n mod 12 < 3"
  shows "clampTip i s h ! n = jointPositions s ! n"
proof -
  have tip: "(i * jointsPerBristle + jointsPerBristle - 1) * 3 = jointIdx i 3"
    by (simp add: jointIdx_def jointsPerBristle_def)
  have ne: "jointIdx i 3 \<noteq> n" "jointIdx i 3 + 1 \<noteq> n" "jointIdx i 3 + 2 \<noteq> n"
    by (rule movable_joint [OF assms]; simp)+
  have "writeVec xs (jointIdx i 3) p ! n = xs ! n" for xs p
    by (rule writeVec_other) (rule ne)+
  then show ?thesis
    by (simp only: clampTip_def Let_def tip)
qed

lemma clampJoint2_base:
  assumes "n mod 12 < 3"
  shows "clampJoint2 i s h jp1 ! n = jp1 ! n"
proof -
  have j2: "(i * jointsPerBristle + 2) * 3 = jointIdx i 2"
    by (simp add: jointIdx_def)
  have ne: "jointIdx i 2 \<noteq> n" "jointIdx i 2 + 1 \<noteq> n" "jointIdx i 2 + 2 \<noteq> n"
    by (rule movable_joint [OF assms]; simp)+
  have "writeVec xs (jointIdx i 2) p ! n = xs ! n" for xs p
    by (rule writeVec_other) (rule ne)+
  then show ?thesis
    by (simp only: clampJoint2_def Let_def j2 if_distrib [of "\<lambda>xs. xs ! n"] if_cancel)
qed

lemma collideBristle_base:
  assumes "n mod 12 < 3"
  shows "jointPositions (collideBristle m i s) ! n = jointPositions s ! n"
  by (simp add: collideBristle_def Let_def clampJoint2_base [OF assms] clampTip_base [OF assms]
      split: list.splits)

lemma stepBristle_base:
  assumes "n mod 12 < 3"
  shows "jointPositions (stepBristle dt i s) ! n = jointPositions s ! n"
proof -
  have v: "jointPositions (fold (verletJoint grav damping i) [1..<jointsPerBristle] s') ! n
             = jointPositions s' ! n" for grav damping s'
    by (rule fold_keeps_on) (simp add: verletJoint_base [OF assms] jointsPerBristle_def)
  have st: "jointPositions (fold (stiffnessJoint stiffness restDir i) [1..<jointsPerBristle] s') ! n
             = jointPositions s' ! n" for stiffness restDir s'
    by (rule fold_keeps_on) (simp add: stiffnessJoint_base [OF assms] jointsPerBristle_def)
  show ?thesis
    by (simp only: stepBristle_def Let_def v st)
qed

lemma satisfyDistanceConstraints_base:
  assumes "n mod 12 < 3"
  shows "jointPositions (satisfyDistanceConstraints s) ! n = jointPositions s ! n"
proof -
  have inner: "jointPositions (fold (satisfySegment i) [0..<segmentsPerBristle] s') ! n
             = jointPositions s' ! n" for i s'
    by (rule fold_keeps_on)
      (simp add: satisfySegment_base [OF assms] segmentsPerBristle_def jointsPerBristle_def)
  show ?thesis
    unfolding satisfyDistanceConstraints_def
    by (rule fold_keeps_on) (rule inner)
qed

lemma stepPhysics_base:
  assumes "n mod 12 < 3"
  shows "jointPositions (stepPhysics dt s) ! n = jointPositions s ! n"
proof -
  have bristles: "jointPositions (fold (stepBristle dt) [0..<bristleCount s] s) ! n = jointPositions s ! n"
    by (rule fold_keeps_on) (rule stepBristle_base [OF assms])
  have "jointPositions ((satisfyDistanceConstraints ^^ constraintIterations) s') ! n
          = jointPositions s' ! n" for s'
    by (rule funpow_keeps) (rule satisfyDistanceConstraints_base [OF assms])
  then show ?thesis
    by (simp add: stepPhysics_def bristles)
qed

lemma physicsLoop_base:
  assumes "n mod 12 < 3"
  shows "jointPositions (fst (physicsLoop s)) ! n = jointPositions s ! n"
proof (induction s rule: physicsLoop.induct)
  case (1 s)
  show ?case
  proof (cases "physicsTimestep \<le> physicsAccumulator s")
    case True
    with 1 show ?thesis
      by (subst physicsLoop.simps) (simp add: stepPhysics_base [OF assms] split_beta)
  next
    case False
    then show ?thesis by (subst physicsLoop.simps) simp
  qed
qed

lemma applySplay_base:
  assumes "n mod 12 < 3"
  shows "jointPositions (applySplay pressure s) ! n = jointPositions s ! n"
proof -
  have joints: "jointPositions (fold (splayJoint nx ny pressure i) [1..<jointsPerBristle] s') ! n
             = jointPositions s' ! n" for nx ny i s'
    by (rule fold_keeps_on) (simp add: splayJoint_base [OF assms] jointsPerBristle_def)
  have "jointPositions (fold (splayBristle pressure) [0..<bristleCount s] s) ! n = jointPositions s ! n"
    by (rule fold_keeps_on) (simp only: splayBristle_def Let_def joints)
  then show ?thesis by (simp add: applySplay_def)
qed

lemma handleCollision_base:
  assumes "n mod 12 < 3"
  shows "jointPositions (handleCollision nailMesh s) ! n = jointPositions s ! n"
proof -
  have "jointPositions (fold (collideBristle m) xs s') ! n = jointPositions s' ! n" for m xs s'
    by (rule fold_keeps_on) (rule collideBristle_base [OF assms])
  then show ?thesis
    by (simp add: handleCollision_def Let_def split: option.splits)
qed

lemma updatePhysics_base:
  assumes "n mod 12 < 3"
  shows "jointPositions (updatePhysics deltaTime s) ! n = jointPositions s ! n"
  by (simp add: updatePhysics_def updatePhysicsCounted_def physicsLoop_base [OF assms])

lemma updateCounted_state:
  "fst (snd (updateCounted deltaTime nailMesh s)) =
     handleCollision nailMesh
       (updatePhysics deltaTime (if bs_pressure s > 0 then applySplay (bs_pressure s) s else s))"
proof -
  obtain s2 n where loop:
    "updatePhysicsCounted deltaTime (if bs_pressure s > 0 then applySplay (bs_pressure s) s else s) = (s2, n)"
    by (cases "updatePhysicsCounted deltaTime (if bs_pressure s > 0 then applySplay (bs_pressure s) s else s)")
  show ?thesis
    unfolding updateCounted_def updatePhysics_def Let_def loop by simp
qed

lemma updateCounted_base:
  assumes "n mod 12 < 3"
  shows "jointPositions (fst (snd (updateCounted deltaTime nailMesh s))) ! n = jointPositions s ! n"
proof -
  have "jointPositions (if bs_pressure s > 0 then applySplay (bs_pressure s) s else s) ! n
          = jointPositions s ! n"
    by (simp add: applySplay_base [OF assms])
  then show ?thesis
    by (simp only: updateCounted_state handleCollision_base [OF assms] updatePhysics_base [OF assms])
qed

lemma base_entries:
  "(jointIdx i 0) mod 12 < 3" "(jointIdx i 0 + 1) mod 12 < 3" "(jointIdx i 0 + 2) mod 12 < 3"
  using joint_entry_mod [of 0 0 i] joint_entry_mod [of 0 1 i] joint_entry_mod [of 0 2 i]
  by (simp_all add: jointIdx_def)

lemma baseJoint_eqI:
  assumes "\<And>n. n mod 12 < 3 \<Longrightarrow> jointPositions s' ! n = jointPositions s ! n"
  shows "baseJoint s' i = baseJoint s i"
  unfolding baseJoint_def jointPos_def readVec_def
  using assms [OF base_entries(1), of i] assms [OF base_entries(2), of i]
    assms [OF base_entries(3), of i]
  by simp

text \<open>
  Claim C3. The position of joint 0 of every bristle is the same before and after
  \<^verbatim>\<open>applySplay\<close>, \<^verbatim>\<open>stepPhysics\<close> (Verlet integration, stiffness and the constraint
  iterations), one pass of \<^verbatim>\<open>satisfyDistanceConstraints\<close>, \<^verbatim>\<open>handleCollision\<close>, and
  hence the whole \<^verbatim>\<open>update\<close>.
\<close>

theorem base_joint_never_moves:
  "baseJoint (applySplay pressure s) i = baseJoint s i
   \<and> baseJoint (stepPhysics dt s) i = baseJoint s i
   \<and> baseJoint (satisfyDistanceConstraints s) i = baseJoint s i
   \<and> baseJoint (handleCollision nailMesh s) i = baseJoint s i
   \<and> baseJoint (snd (bs_update deltaTime nailMesh s)) i = baseJoint s i"
proof -
  have upd: "snd (bs_update deltaTime nailMesh s) = fst (snd (updateCounted deltaTime nailMesh s))"
    by (cases "updateCounted deltaTime nailMesh s") (simp add: bs_update_def)
  have splay: "baseJoint (applySplay pressure s) i = baseJoint s i"
    by (rule baseJoint_eqI) (rule applySplay_base)
  have phys: "baseJoint (stepPhysics dt s) i = baseJoint s i"
    by (rule baseJoint_eqI) (rule stepPhysics_base)
  have cons: "baseJoint (satisfyDistanceConstraints s) i = baseJoint s i"
    by (rule baseJoint_eqI) (rule satisfyDistanceConstraints_base)
  have coll: "baseJoint (handleCollision nailMesh s) i = baseJoint s i"
    by (rule baseJoint_eqI) (rule handleCollision_base)
  have full: "baseJoint (fst (snd (updateCounted deltaTime nailMesh s))) i = baseJoint s i"
    by (rule baseJoint_eqI) (rule updateCounted_base)
  from splay phys cons coll full show ?thesis
    unfolding upd by blast
qed

lemma physicsLoop_count: "snd (physicsLoop s) = nat \<lfloor>physicsAccumulator s * 120\<rfloor>"
proof (induction s rule: physicsLoop.induct)
  case (1 s)
  show ?case
  proof (cases "physicsTimestep \<le> physicsAccumulator s")
    case True
    then have ge: "1 \<le> physicsAccumulator s * 120"
      by (simp add: physicsTimestep_def)
    then have pos: "1 \<le> \<lfloor>physicsAccumulator s * 120\<rfloor>" by linarith
    have fl: "\<lfloor>(physicsAccumulator s - physicsTimestep) * 120\<rfloor> = \<lfloor>physicsAccumulator s * 120\<rfloor> - 1"
      by (simp add: physicsTimestep_def algebra_simps)
    let ?s2 = "(stepPhysics physicsTimestep s)
                \<lparr>physicsAccumulator :=
                   physicsAccumulator (stepPhysics physicsTimestep s) - physicsTimestep\<rparr>"
    have acc2: "physicsAccumulator ?s2 = physicsAccumulator s - physicsTimestep"
      by (simp add: stepPhysics_physicsAccumulator)
    have unfold: "snd (physicsLoop s) = Suc (snd (physicsLoop ?s2))"
      by (subst physicsLoop.simps) (simp add: True split_beta)
    have "snd (physicsLoop ?s2) = nat (\<lfloor>physicsAccumulator s * 120\<rfloor> - 1)"
      unfolding 1 [OF True] acc2 fl ..
    then have "Suc (snd (physicsLoop ?s2)) = nat \<lfloor>physicsAccumulator s * 120\<rfloor>"
      using pos by linarith
    then show ?thesis
      unfolding unfold .
  next
    case False
    then have "physicsAccumulator s * 120 < 1"
      by (simp add: physicsTimestep_def)
    then have "\<lfloor>physicsAccumulator s * 120\<rfloor> \<le> 0" by linarith
    with False show ?thesis
      by (subst physicsLoop.simps) simp
  qed
qed

lemma physicsLoop_accumulator: "physicsAccumulator (fst (physicsLoop s)) < physicsTimestep"
proof (induction s rule: physicsLoop.induct)
  case (1 s)
  show ?case
  proof (cases "physicsTimestep \<le> physicsAccumulator s")
    case True
    with 1 [OF True] show ?thesis
      by (subst physicsLoop.simps) (simp add: split_beta)
  next
    case False
    then show ?thesis
      by (subst physicsLoop.simps) simp
  qed
qed

lemma collideBristle_physicsAccumulator:
  "physicsAccumulator (collideBristle m i s) = physicsAccumulator s"
  by (simp add: collideBristle_def Let_def split: list.splits)

lemma handleCollision_physicsAccumulator:
  "physicsAccumulator (handleCollision nailMesh s) = physicsAccumulator s"
  by (simp add: handleCollision_def Let_def fold_keeps collideBristle_physicsAccumulator
      split: option.splits)

lemma splayJoint_physicsAccumulator:
  "physicsAccumulator (splayJoint nx ny pressure i j s) = physicsAccumulator s"
  by (simp add: splayJoint_def Let_def)

lemma applySplay_physicsAccumulator:
  "physicsAccumulator (applySplay pressure s) = physicsAccumulator s"
  by (simp add: applySplay_def splayBristle_def Let_def fold_keeps splayJoint_physicsAccumulator)

lemma updateCounted_parts:
  "updateCounted deltaTime nailMesh s =
     (contactPoints (handleCollision nailMesh (fst (updatePhysicsCounted deltaTime
          (if bs_pressure s > 0 then applySplay (bs_pressure s) s else s)))),
      handleCollision nailMesh (fst (updatePhysicsCounted deltaTime
          (if bs_pressure s > 0 then applySplay (bs_pressure s) s else s))),
      snd (updatePhysicsCounted deltaTime
          (if bs_pressure s > 0 then applySplay (bs_pressure s) s else s)))"
proof -
  obtain s2 n where loop:
    "updatePhysicsCounted deltaTime (if bs_pressure s > 0 then applySplay (bs_pressure s) s else s) = (s2, n)"
    by (cases "updatePhysicsCounted deltaTime (if bs_pressure s > 0 then applySplay (bs_pressure s) s else s)")
  show ?thesis
    unfolding updateCounted_def Let_def loop by simp
qed

text \<open>
  Claim C5. In a state whose accumulator is below the fixed timestep (the constructor
  sets it to 0, and every \<^verbatim>\<open>update\<close> leaves it below the timestep again), one \<^verbatim>\<open>update\<close>
  call runs at most \<open>\<lceil>maxDt / physicsTimestep\<rceil> + 1 = 13\<close> substeps, whatever
  \<open>deltaTime\<close> it is given.
\<close>

theorem substeps_per_update_bounded:
  assumes "physicsAccumulator s < physicsTimestep"
  shows "snd (snd (updateCounted deltaTime nailMesh s)) \<le> nat \<lceil>maxDt / physicsTimestep\<rceil> + 1
       \<and> physicsAccumulator (fst (snd (updateCounted deltaTime nailMesh s))) < physicsTimestep"
proof -
  let ?s1 = "if bs_pressure s > 0 then applySplay (bs_pressure s) s else s"
  have acc1: "physicsAccumulator ?s1 = physicsAccumulator s"
    by (simp add: applySplay_physicsAccumulator)
  have count: "snd (updatePhysicsCounted deltaTime ?s1)
                 = nat \<lfloor>(physicsAccumulator s + min deltaTime maxDt) * 120\<rfloor>"
    unfolding updatePhysicsCounted_def physicsLoop_count using acc1 by simp
  have "(physicsAccumulator s + min deltaTime maxDt) * 120 < 13"
    using assms by (simp add: physicsTimestep_def maxDt_def min_def)
  then have "\<lfloor>(physicsAccumulator s + min deltaTime maxDt) * 120\<rfloor> \<le> 12" by linarith
  then have le: "snd (updatePhysicsCounted deltaTime ?s1) \<le> 12"
    unfolding count by linarith
  have cap: "nat \<lceil>maxDt / physicsTimestep\<rceil> + 1 = 13"
    by (simp add: maxDt_def physicsTimestep_def)
  have acc: "physicsAccumulator (handleCollision nailMesh (fst (updatePhysicsCounted deltaTime ?s1)))
               < physicsTimestep"
    by (simp add: handleCollision_physicsAccumulator updatePhysicsCounted_def physicsLoop_accumulator)
  show ?thesis
    unfolding updateCounted_parts cap using le acc by simp
qed

theorem substeps_per_update_bounded_witness:
  "physicsAccumulator restBristle < physicsTimestep
   \<and> snd (snd (updateCounted (1 / 20) None restBristle)) \<le> 13
   \<and> physicsAccumulator (fst (snd (updateCounted (1 / 20) None restBristle))) < physicsTimestep"
  using substeps_per_update_bounded [of restBristle "1 / 20" None]
  by (simp add: restBristle_def physicsTimestep_def maxDt_def)


lemma vlen3_scale: "vlen3 (dx * k) (dy * k) (dz * k) = \<bar>k\<bar> * vlen3 dx dy dz"
proof -
  have "(dx * k) * (dx * k) + (dy * k) * (dy * k) + (dz * k) * (dz * k)
          = (k * k) * (dx * dx + dy * dy + dz * dz)"
    by (simp add: algebra_simps)
  then show ?thesis
    by (simp add: vlen3_def real_sqrt_mult)
qed

lemma corrected_length:
  assumes "0 < c" "c = vlen3 dx dy dz" "0 < L"
  shows "vlen3 (dx + dx * ((L - c) / c)) (dy + dy * ((L - c) / c)) (dz + dz * ((L - c) / c)) = L"
proof -
  have k: "1 + (L - c) / c = L / c" using assms(1) by (simp add: field_simps)
  have "vlen3 (dx * (L / c)) (dy * (L / c)) (dz * (L / c)) = \<bar>L / c\<bar> * vlen3 dx dy dz"
    by (rule vlen3_scale)
  also have "\<dots> = L" using assms by simp
  finally have scaled: "vlen3 (dx * (L / c)) (dy * (L / c)) (dz * (L / c)) = L" .
  have "x + x * ((L - c) / c) = x * (L / c)" for x :: real
  proof -
    have "x + x * ((L - c) / c) = x * (1 + (L - c) / c)" by (simp add: algebra_simps)
    then show ?thesis unfolding k .
  qed
  then show ?thesis using scaled by simp
qed

lemma segmentLength_pos: "0 < segmentLength"
  by (simp add: segmentLength_def bristleLength_def segmentsPerBristle_def jointsPerBristle_def)

lemma next_joint: "(i * jointsPerBristle + j + 1) * 3 = jointIdx i j + 3"
  by (simp add: jointIdx_def)

lemma this_joint: "(i * jointsPerBristle + j) * 3 = jointIdx i j"
  by (simp add: jointIdx_def)

lemma jointIdx_Suc: "jointIdx i (j + 1) = jointIdx i j + 3"
  by (simp add: jointIdx_def)

lemma satisfySegment_positions:
  "jointPositions (satisfySegment i j s) =
     (let a = jointIdx i j;
          jp = jointPositions s;
          dx = jp ! (a + 3) - jp ! a;
          dy = jp ! (a + 3 + 1) - jp ! (a + 1);
          dz = jp ! (a + 3 + 2) - jp ! (a + 2);
          c = vlen3 dx dy dz;
          h = (segmentLength - c) / c * (1 / 2)
      in if c > 1 / 100000 then
           (if j = 0 then
              jp[a + 3 := jp ! (a + 3) + dx * ((segmentLength - c) / c),
                 a + 3 + 1 := jp ! (a + 3 + 1) + dy * ((segmentLength - c) / c),
                 a + 3 + 2 := jp ! (a + 3 + 2) + dz * ((segmentLength - c) / c)]
            else
              jp[a := jp ! a - dx * h, a + 1 := jp ! (a + 1) - dy * h, a + 2 := jp ! (a + 2) - dz * h,
                 a + 3 := jp ! (a + 3) + dx * h, a + 3 + 1 := jp ! (a + 3 + 1) + dy * h,
                 a + 3 + 2 := jp ! (a + 3 + 2) + dz * h])
         else jp)"
  unfolding satisfySegment_def this_joint next_joint
  by (simp add: Let_def)

lemma segmentLen_entries:
  "segmentLen s i j =
     vlen3 (jointPositions s ! (jointIdx i j + 3) - jointPositions s ! jointIdx i j)
           (jointPositions s ! (jointIdx i j + 3 + 1) - jointPositions s ! (jointIdx i j + 1))
           (jointPositions s ! (jointIdx i j + 3 + 2) - jointPositions s ! (jointIdx i j + 2))"
  unfolding segmentLen_def jointPos_def readVec_def v3_sub_def jointIdx_Suc
  by simp

lemma satisfySegment_length:
  assumes "jointIdx i j + 5 < length (jointPositions s)"
  shows "segmentLen (satisfySegment i j s) i j =
           (if segmentLen s i j > 1 / 100000 then segmentLength else segmentLen s i j)"
proof -
  define a where "a = jointIdx i j"
  define jp where "jp = jointPositions s"
  define dx where "dx = jp ! (a + 3) - jp ! a"
  define dy where "dy = jp ! (a + 3 + 1) - jp ! (a + 1)"
  define dz where "dz = jp ! (a + 3 + 2) - jp ! (a + 2)"
  define c where "c = vlen3 dx dy dz"
  define h where "h = (segmentLength - c) / c * (1 / 2)"
  have len: "a + 3 + 2 < length jp" using assms by (simp add: a_def jp_def)
  have seg: "segmentLen s i j = c"
    unfolding segmentLen_entries c_def dx_def dy_def dz_def a_def jp_def ..
  have pos: "jointPositions (satisfySegment i j s) =
      (if c > 1 / 100000 then
           (if j = 0 then
              jp[a + 3 := jp ! (a + 3) + dx * ((segmentLength - c) / c),
                 a + 3 + 1 := jp ! (a + 3 + 1) + dy * ((segmentLength - c) / c),
                 a + 3 + 2 := jp ! (a + 3 + 2) + dz * ((segmentLength - c) / c)]
            else
              jp[a := jp ! a - dx * h, a + 1 := jp ! (a + 1) - dy * h, a + 2 := jp ! (a + 2) - dz * h,
                 a + 3 := jp ! (a + 3) + dx * h, a + 3 + 1 := jp ! (a + 3 + 1) + dy * h,
                 a + 3 + 2 := jp ! (a + 3 + 2) + dz * h])
         else jp)"
    unfolding satisfySegment_positions Let_def a_def jp_def dx_def dy_def dz_def c_def h_def ..
  show ?thesis
  proof (cases "c > 1 / 100000")
    case False
    then show ?thesis
      unfolding segmentLen_entries [of "satisfySegment i j s"] pos seg
      by (simp add: c_def dx_def dy_def dz_def a_def jp_def segmentLen_entries)
  next
    case True
    then have cpos: "0 < c" by simp
    have corrected: "vlen3 (dx + dx * ((segmentLength - c) / c)) (dy + dy * ((segmentLength - c) / c))
               (dz + dz * ((segmentLength - c) / c)) = segmentLength"
      by (rule corrected_length [OF cpos c_def segmentLength_pos])
    have twice: "x + y * h - (z - y * h) = (x - z) + y * ((segmentLength - c) / c)" for x y z :: real
      by (simp add: h_def algebra_simps)
    have "segmentLen (satisfySegment i j s) i j =
        vlen3 (dx + dx * ((segmentLength - c) / c)) (dy + dy * ((segmentLength - c) / c))
               (dz + dz * ((segmentLength - c) / c))"
    proof (cases "j = 0")
      case True
      with \<open>c > 1 / 100000\<close> len show ?thesis
        unfolding segmentLen_entries [of "satisfySegment i j s"] pos a_def [symmetric]
        by (simp add: dx_def dy_def dz_def algebra_simps)
    next
      case False
      with \<open>c > 1 / 100000\<close> len show ?thesis
        unfolding segmentLen_entries [of "satisfySegment i j s"] pos a_def [symmetric]
        by (simp add: twice) (simp add: dx_def dy_def dz_def)
    qed
    with corrected True show ?thesis by (simp add: seg)
  qed
qed


lemma jointIdx_Suc': "jointIdx i (Suc j) = jointIdx i j + 3"
  by (simp add: jointIdx_def)

lemma joint_entry_div:
  fixes i j k :: nat
  assumes "j < 4" "k < 3"
  shows "(jointIdx i j + k) div 12 = i"
proof -
  have eq: "jointIdx i j + k = 12 * i + (3 * j + k)"
    unfolding jointIdx_def jointsPerBristle_def by simp
  have lt: "3 * j + k < 12" using assms by simp
  show ?thesis
    by (subst eq) (simp add: lt)
qed

lemma other_bristle_entries:
  assumes "n div 12 \<noteq> i" "j < 3"
  shows "jointIdx i j \<noteq> n" "jointIdx i j + 1 \<noteq> n" "jointIdx i j + 2 \<noteq> n"
    "jointIdx i j + 3 \<noteq> n" "jointIdx i j + 3 + 1 \<noteq> n" "jointIdx i j + 3 + 2 \<noteq> n"
proof -
  have lo: "(jointIdx i j + k) div 12 = i" if "k < 3" for k
    using joint_entry_div [of j k i] assms(2) that by simp
  have hi: "(jointIdx i j + 3 + k) div 12 = i" if "k < 3" for k
    using joint_entry_div [of "Suc j" k i] assms(2) that by (simp add: jointIdx_Suc')
  show "jointIdx i j \<noteq> n" using lo [of 0] assms(1) by auto
  show "jointIdx i j + 1 \<noteq> n" using lo [of 1] assms(1) by auto
  show "jointIdx i j + 2 \<noteq> n" using lo [of 2] assms(1) by auto
  show "jointIdx i j + 3 \<noteq> n" using hi [of 0] assms(1) by auto
  show "jointIdx i j + 3 + 1 \<noteq> n" using hi [of 1] assms(1) by auto
  show "jointIdx i j + 3 + 2 \<noteq> n" using hi [of 2] assms(1) by auto
qed

lemma satisfySegment_other:
  assumes "n div 12 \<noteq> i" "j < 3"
  shows "jointPositions (satisfySegment i j s) ! n = jointPositions s ! n"
proof (cases "j = 0")
  case True
  with other_bristle_entries [OF assms] show ?thesis
    by (simp add: satisfySegment_positions Let_def)
next
  case False
  with other_bristle_entries [OF assms] show ?thesis
    by (simp add: satisfySegment_positions Let_def)
qed

lemma satisfySegment_length_list:
  "length (jointPositions (satisfySegment i j s)) = length (jointPositions s)"
  by (simp add: satisfySegment_positions Let_def)

lemma satisfySegment_bristleCount:
  "bristleCount (satisfySegment i j s) = bristleCount s"
  by (simp add: satisfySegment_def Let_def)

lemma segments_of_bristle: "[0..<segmentsPerBristle] = [0, 1, 2]"
  by (simp add: segmentsPerBristle_def jointsPerBristle_def upt_rec)

lemma constrainBristle_other:
  assumes "n div 12 \<noteq> i"
  shows "jointPositions (fold (satisfySegment i) [0..<segmentsPerBristle] s) ! n = jointPositions s ! n"
proof (rule fold_keeps_on)
  fix x s'
  assume "x \<in> set [0..<segmentsPerBristle]"
  then have "x < 3" by (simp add: segmentsPerBristle_def jointsPerBristle_def)
  with assms show "jointPositions (satisfySegment i x s') ! n = jointPositions s' ! n"
    by (rule satisfySegment_other)
qed

lemma constrainBristle_length_list:
  "length (jointPositions (fold (satisfySegment i) xs s)) = length (jointPositions s)"
  by (rule fold_keeps [where g = "\<lambda>s. length (jointPositions s)"])
    (rule satisfySegment_length_list)

lemma constrainBristle_tip:
  assumes "jointIdx i 2 + 5 < length (jointPositions s)"
  shows "segmentLen (fold (satisfySegment i) [0..<segmentsPerBristle] s) i 2 = segmentLength
       \<or> segmentLen (fold (satisfySegment i) [0..<segmentsPerBristle] s) i 2 \<le> 1 / 100000"
proof -
  let ?s2 = "satisfySegment i 1 (satisfySegment i 0 s)"
  have "jointIdx i 2 + 5 < length (jointPositions ?s2)"
    using assms by (simp add: satisfySegment_length_list)
  from satisfySegment_length [OF this]
  have "segmentLen (satisfySegment i 2 ?s2) i 2 = segmentLength
      \<or> segmentLen (satisfySegment i 2 ?s2) i 2 \<le> 1 / 100000"
    by (auto split: if_splits)
  then show ?thesis
    by (simp add: segments_of_bristle)
qed

lemma segmentLen_cong:
  assumes "\<And>n. n div 12 = i \<Longrightarrow> jointPositions s' ! n = jointPositions s ! n" "j < 3"
  shows "segmentLen s' i j = segmentLen s i j"
proof -
  have lo: "(jointIdx i j + k) div 12 = i" if "k < 3" for k
    using joint_entry_div [of j k i] assms(2) that by simp
  have hi: "(jointIdx i j + 3 + k) div 12 = i" if "k < 3" for k
    using joint_entry_div [of "Suc j" k i] assms(2) that by (simp add: jointIdx_Suc')
  show ?thesis
    unfolding segmentLen_entries
    using assms(1) [OF lo [of 0]] assms(1) [OF lo [of 1]] assms(1) [OF lo [of 2]]
      assms(1) [OF hi [of 0]] assms(1) [OF hi [of 1]] assms(1) [OF hi [of 2]]
    by simp
qed

lemma bristles_split:
  assumes "i < n"
  shows "[0..<n] = [0..<i] @ i # [Suc i..<n]"
  using assms by (metis less_imp_le_nat upt_add_eq_append upt_conv_Cons le0 le_add_diff_inverse plus_nat.add_0)

lemma satisfyDistanceConstraints_tip:
  assumes "length (jointPositions s) = bristleCount s * jointsPerBristle * 3" "i < bristleCount s"
  shows "segmentLen (satisfyDistanceConstraints s) i 2 = segmentLength
       \<or> segmentLen (satisfyDistanceConstraints s) i 2 \<le> 1 / 100000"
proof -
  let ?pass = "\<lambda>i. fold (satisfySegment i) [0..<segmentsPerBristle]"
  let ?before = "fold ?pass [0..<i] s"
  let ?mine = "?pass i ?before"
  have split: "satisfyDistanceConstraints s = fold ?pass [Suc i..<bristleCount s] ?mine"
    unfolding satisfyDistanceConstraints_def bristles_split [OF assms(2)] by simp
  have len: "length (jointPositions ?before) = length (jointPositions s)"
    by (rule fold_keeps [where g = "\<lambda>s. length (jointPositions s)"])
      (rule constrainBristle_length_list)
  have "jointIdx i 2 + 5 < 12 * bristleCount s"
  proof -
    have "jointIdx i 2 + 5 < 12 * (i + 1)" by (simp add: jointIdx_def jointsPerBristle_def)
    also have "\<dots> \<le> 12 * bristleCount s" using assms(2) by simp
    finally show ?thesis .
  qed
  then have "jointIdx i 2 + 5 < length (jointPositions ?before)"
    using assms(1) by (simp add: len jointsPerBristle_def)
  then have mine: "segmentLen ?mine i 2 = segmentLength \<or> segmentLen ?mine i 2 \<le> 1 / 100000"
    by (rule constrainBristle_tip)
  have later: "jointPositions (fold ?pass [Suc i..<bristleCount s] ?mine) ! n = jointPositions ?mine ! n"
    if "n div 12 = i" for n
  proof (rule fold_keeps_on)
    fix x s'
    assume "x \<in> set [Suc i..<bristleCount s]"
    then have "n div 12 \<noteq> x" using that by simp
    then show "jointPositions (?pass x s') ! n = jointPositions s' ! n"
      by (rule constrainBristle_other)
  qed
  have "segmentLen (satisfyDistanceConstraints s) i 2 = segmentLen ?mine i 2"
    unfolding split by (rule segmentLen_cong) (simp_all add: later)
  with mine show ?thesis by simp
qed


lemma verletJoint_shape:
  "length (jointPositions (verletJoint grav damping i j s)) = length (jointPositions s)"
  "bristleCount (verletJoint grav damping i j s) = bristleCount s"
  by (simp_all add: verletJoint_def Let_def)

lemma stiffnessJoint_shape:
  "length (jointPositions (stiffnessJoint stiffness restDir i j s)) = length (jointPositions s)"
  "bristleCount (stiffnessJoint stiffness restDir i j s) = bristleCount s"
  by (cases restDir; simp add: stiffnessJoint_def Let_def)+

lemma stepBristle_shape:
  "length (jointPositions (stepBristle dt i s)) = length (jointPositions s)"
  "bristleCount (stepBristle dt i s) = bristleCount s"
proof -
  have v: "length (jointPositions (fold (verletJoint grav damping i) xs s'))
             = length (jointPositions s')" for grav damping xs s'
    by (rule fold_keeps [where g = "\<lambda>s. length (jointPositions s)"]) (rule verletJoint_shape)
  have st: "length (jointPositions (fold (stiffnessJoint stiffness restDir i) xs s'))
             = length (jointPositions s')" for stiffness restDir xs s'
    by (rule fold_keeps [where g = "\<lambda>s. length (jointPositions s)"]) (rule stiffnessJoint_shape)
  show "length (jointPositions (stepBristle dt i s)) = length (jointPositions s)"
    by (simp only: stepBristle_def Let_def v st)
  show "bristleCount (stepBristle dt i s) = bristleCount s"
    by (simp add: stepBristle_def Let_def fold_keeps verletJoint_shape stiffnessJoint_shape)
qed

lemma satisfyDistanceConstraints_shape:
  "length (jointPositions (satisfyDistanceConstraints s)) = length (jointPositions s)"
  "bristleCount (satisfyDistanceConstraints s) = bristleCount s"
proof -
  show "length (jointPositions (satisfyDistanceConstraints s)) = length (jointPositions s)"
    unfolding satisfyDistanceConstraints_def
    by (rule fold_keeps [where g = "\<lambda>s. length (jointPositions s)"])
      (rule constrainBristle_length_list)
  show "bristleCount (satisfyDistanceConstraints s) = bristleCount s"
    by (simp add: satisfyDistanceConstraints_def fold_keeps satisfySegment_bristleCount)
qed

text \<open>
  Claim C4, as amended. After the constraint iterations of a physics step the tip segment
  (the segment projected last in every pass) of every bristle has exactly the rest length,
  unless the projection skipped it as degenerate, in which case it is at most \<open>0.00001\<close>
  long. The joint arrays have the size the constructor gives them.
\<close>

theorem tip_segment_has_rest_length_after_step:
  assumes "length (jointPositions s) = bristleCount s * jointsPerBristle * 3"
    and "i < bristleCount s"
  shows "segmentLen (stepPhysics dt s) i (segmentsPerBristle - 1) = segmentLength
       \<or> segmentLen (stepPhysics dt s) i (segmentsPerBristle - 1) \<le> 1 / 100000"
proof -
  let ?s0 = "fold (stepBristle dt) [0..<bristleCount s] s"
  let ?s3 = "(satisfyDistanceConstraints ^^ 3) ?s0"
  have iters: "constraintIterations = Suc 3"
    by (simp add: constraintIterations_def)
  have step: "stepPhysics dt s = satisfyDistanceConstraints ?s3"
    unfolding stepPhysics_def iters by (simp only: funpow.simps o_apply)
  have len0: "length (jointPositions ?s0) = length (jointPositions s)"
    by (rule fold_keeps [where g = "\<lambda>s. length (jointPositions s)"]) (rule stepBristle_shape)
  have cnt0: "bristleCount ?s0 = bristleCount s"
    by (rule fold_keeps) (rule stepBristle_shape)
  have len3: "length (jointPositions ?s3) = length (jointPositions ?s0)"
    by (rule funpow_keeps [where g = "\<lambda>s. length (jointPositions s)"])
      (rule satisfyDistanceConstraints_shape)
  have cnt3: "bristleCount ?s3 = bristleCount ?s0"
    by (rule funpow_keeps) (rule satisfyDistanceConstraints_shape)
  have wf: "length (jointPositions ?s3) = bristleCount ?s3 * jointsPerBristle * 3"
    unfolding len3 cnt3 len0 cnt0 by (rule assms(1))
  have i: "i < bristleCount ?s3"
    unfolding cnt3 cnt0 by (rule assms(2))
  have tip: "segmentsPerBristle - 1 = 2"
    by (simp add: segmentsPerBristle_def jointsPerBristle_def)
  show ?thesis
    unfolding step tip by (rule satisfyDistanceConstraints_tip [OF wf i])
qed

theorem tip_segment_has_rest_length_after_step_witness:
  "length (jointPositions restBristle) = bristleCount restBristle * jointsPerBristle * 3
   \<and> 0 < bristleCount restBristle
   \<and> (segmentLen (stepPhysics physicsTimestep restBristle) 0 (segmentsPerBristle - 1) = segmentLength
      \<or> segmentLen (stepPhysics physicsTimestep restBristle) 0 (segmentsPerBristle - 1) \<le> 1 / 100000)"
proof -
  have wf: "length (jointPositions restBristle) = bristleCount restBristle * jointsPerBristle * 3"
    by (simp add: restBristle_def jointsPerBristle_def)
  have i: "0 < bristleCount restBristle"
    by (simp add: restBristle_def)
  from tip_segment_has_rest_length_after_step [OF wf i, of physicsTimestep] wf i
  show ?thesis by blast
qed

end
